theory Spec2Isabelle
  imports Complex_Main "HOL-Library.Multiset" "HOL-Library.Sublist" "HOL-Library.AList"
    "HOL-Library.Word"
begin

section \<open>JavaScript values\<close>

text \<open>
  The values the sources handle are the ones JSON can carry: the settings documents, the
  index entries and the results of the per-user operations. A value of type \<open>jsval\<close> is
  such a value or \<open>undefined\<close> (\<open>None\<close>). An object is the ordered list of its own
  properties. The numbers of a document are kept exact (a rational).
\<close>

datatype json =
    JNull
  | JBool bool
  | JNum rat
  | JStr string
  | JArr "json list"
  | JObj "(string \<times> json) list"

type_synonym jsval = "json option"

text \<open>
  A thrown value: an \<open>Error\<close> object, with its message, or any other value (\<open>throw null\<close>,
  a promise rejected with no reason, a thrown string or plain object).
\<close>

datatype js_error = JsError string | Thrown jsval

text \<open>Truthiness, as \<open>&&\<close> and \<open>if\<close> test it.\<close>

fun truthy :: "jsval \<Rightarrow> bool" where
  "truthy None = False"
| "truthy (Some JNull) = False"
| "truthy (Some (JBool b)) = b"
| "truthy (Some (JNum n)) = (n \<noteq> 0)"
| "truthy (Some (JStr s)) = (s \<noteq> [])"
| "truthy (Some (JArr xs)) = True"
| "truthy (Some (JObj ps)) = True"

fun typeof :: "jsval \<Rightarrow> string" where
  "typeof None = ''undefined''"
| "typeof (Some JNull) = ''object''"
| "typeof (Some (JBool b)) = ''boolean''"
| "typeof (Some (JNum n)) = ''number''"
| "typeof (Some (JStr s)) = ''string''"
| "typeof (Some (JArr xs)) = ''object''"
| "typeof (Some (JObj ps)) = ''object''"

text \<open>
  The property read \<open>v.k\<close> for the keys the sources read (\<open>skipped\<close>, \<open>message\<close>,
  \<open>name\<close>, \<open>filename\<close>, \<open>type\<close>): a \<open>TypeError\<close> on \<open>null\<close> and \<open>undefined\<close>, the
  own property of an object, \<open>undefined\<close> on every other value (none of these keys is on
  a built-in prototype).
\<close>

fun get_member :: "jsval \<Rightarrow> string \<Rightarrow> js_error + jsval" where
  "get_member None k = Inl (JsError (''Cannot read properties of undefined (reading '' @ k @ '')''))"
| "get_member (Some JNull) k = Inl (JsError (''Cannot read properties of null (reading '' @ k @ '')''))"
| "get_member (Some (JObj ps)) k = Inr (map_of ps k)"
| "get_member (Some v) k = Inr None"

text \<open>
  The read \<open>err.message\<close> in a \<open>catch\<close>: the message of an \<open>Error\<close> object, the property
  read on any other thrown value, which throws in its turn on \<open>null\<close> and \<open>undefined\<close>.
\<close>

fun error_message :: "js_error \<Rightarrow> js_error + jsval" where
  "error_message (JsError m) = Inr (Some (JStr m))"
| "error_message (Thrown v) = get_member v ''message''"

text \<open>
  The conversion to a string in a template literal succeeds on every primitive. An object
  is converted by its \<open>toString\<close>: the inherited one, unless the object has a property of
  that name of its own, which in a value of this type is no function; the conversion
  then throws a \<open>TypeError\<close>. An array joins the conversions of its elements.
\<close>

fun converts_to_string :: "json \<Rightarrow> bool" where
  "converts_to_string (JObj ps) \<longleftrightarrow> map_of ps ''toString'' = None"
| "converts_to_string (JArr xs) \<longleftrightarrow> (\<forall>x \<in> set xs. converts_to_string x)"
| "converts_to_string v \<longleftrightarrow> True"

definition printable :: "jsval \<Rightarrow> bool" where
  "printable v \<longleftrightarrow> (case v of None \<Rightarrow> True | Some x \<Rightarrow> converts_to_string x)"

section \<open>Batch executor (\<open>batchOperation\<close>)\<close>

text \<open>
  \<open>BatchResults\<close>: \<open>success\<close> holds handles, \<open>skipped\<close> holds \<open>{handle, reason}\<close>
  and \<open>failed\<close> holds \<open>{handle, error}\<close>, both as pairs. The reason is whatever the
  operation returned under \<open>skipped\<close>, the error whatever \<open>err.message\<close> gave.
\<close>

record BatchResults =
  success :: "string list"
  skipped :: "(string \<times> jsval) list"
  failed :: "(string \<times> jsval) list"

text \<open>
  What the executor shows: the console, the progress bar, and the lines of the final
  report (a line of the report carries the value it prints after the handle).
\<close>

datatype ui_event =
    ConsoleLog string
  | BarStart nat string
  | BarUpdate string
  | BarIncrement
  | BarStop
  | ReportHeader string
  | ReportCount string nat
  | ReportLine string jsval

text \<open>
  The per-user operation is an async closure with effects of its own (it reads and writes
  the user's files): it takes the handle and the world, and returns the value it resolves
  to or the value it throws (or rejects with), with the new world. An operation whose
  promise never settles is not modelled.
\<close>

type_synonym 'w operation = "string \<Rightarrow> 'w \<Rightarrow> (js_error + jsval) \<times> 'w"

text \<open>
  The \<open>catch\<close> block: it pushes \<open>{handle, error: err.message}\<close>, and what the read of
  \<open>err.message\<close> throws leaves \<open>batchOperation\<close>.
\<close>

definition catch_block :: "string \<Rightarrow> js_error \<Rightarrow> BatchResults \<Rightarrow> js_error + BatchResults" where
  "catch_block handle err results =
     (case error_message err of
        Inl e \<Rightarrow> Inl e
      | Inr m \<Rightarrow> Inr (results\<lparr>failed := failed results @ [(handle, m)]\<rparr>))"

text \<open>The body of the \<open>try\<close> after the \<open>await\<close>, and the \<open>catch\<close>.\<close>

fun classify :: "string \<Rightarrow> js_error + jsval \<Rightarrow> BatchResults \<Rightarrow> js_error + BatchResults" where
  "classify handle (Inr result) results =
     (case (if truthy result \<and> typeof result = ''object''
            then get_member result ''skipped'' else Inr None) of
        Inr reason \<Rightarrow>
          if truthy reason
          then Inr (results\<lparr>skipped := skipped results @ [(handle, reason)]\<rparr>)
          else Inr (results\<lparr>success := success results @ [handle]\<rparr>)
      | Inl err \<Rightarrow> catch_block handle err results)"
| "classify handle (Inl err) results = catch_block handle err results"

text \<open>
  The \<open>for (const handle of users)\<close> loop. When the \<open>catch\<close> block throws, the loop is
  left: the later handles are not processed and the bar is not incremented.
\<close>

fun for_each_user ::
  "'w operation \<Rightarrow> string list \<Rightarrow> BatchResults \<times> 'w \<times> ui_event list
     \<Rightarrow> (js_error + BatchResults) \<times> 'w \<times> ui_event list" where
  "for_each_user operationFn [] (results, w, out) = (Inr results, w, out)"
| "for_each_user operationFn (handle # rest) (results, w, out) =
     (case operationFn handle w of
        (r, w') \<Rightarrow>
          (case classify handle r results of
             Inl e \<Rightarrow> (Inl e, w', out @ [BarUpdate handle])
           | Inr results' \<Rightarrow>
               for_each_user operationFn rest
                 (results', w', out @ [BarUpdate handle, BarIncrement])))"

text \<open>
  \<open>printBatchReport\<close> writes one line per skipped and per failed handle, with the reason
  or the error in a template literal; a value that cannot be converted to a string makes
  it throw there.
\<close>

fun report_lines :: "(string \<times> jsval) list \<Rightarrow> (js_error + unit) \<times> ui_event list" where
  "report_lines [] = (Inr (), [])"
| "report_lines ((handle, v) # rest) =
     (if printable v
      then (case report_lines rest of (r, out) \<Rightarrow> (r, ReportLine handle v # out))
      else (Inl (JsError ''Cannot convert object to primitive value''), []))"

definition report_section ::
  "string \<Rightarrow> (string \<times> jsval) list \<Rightarrow> (js_error + unit) \<times> ui_event list" where
  "report_section title entries =
     (if length entries > 0
      then (case report_lines entries of
              (r, out) \<Rightarrow> (r, ReportCount title (length entries) # out))
      else (Inr (), []))"

definition printBatchReport :: "BatchResults \<Rightarrow> string \<Rightarrow> (js_error + unit) \<times> ui_event list" where
  "printBatchReport results label =
     (let out = [ConsoleLog '''', ReportHeader label,
                 ReportCount ''Success'' (length (success results))]
      in case report_section ''Skipped'' (skipped results) of
           (Inl e, out1) \<Rightarrow> (Inl e, out @ out1)
         | (Inr u, out1) \<Rightarrow>
             (case report_section ''Failed'' (failed results) of
                (Inl e, out2) \<Rightarrow> (Inl e, out @ out1 @ out2)
              | (Inr u, out2) \<Rightarrow> (Inr (), out @ out1 @ out2 @ [ConsoleLog ''''])))"

definition batchOperation ::
  "string list \<Rightarrow> 'w operation \<Rightarrow> string \<Rightarrow> 'w
     \<Rightarrow> (js_error + BatchResults) \<times> 'w \<times> ui_event list" where
  "batchOperation users operationFn label w =
     (let results = \<lparr>success = [], skipped = [], failed = []\<rparr> in
      if length users = 0
      then (Inr results, w, [ConsoleLog ''No users selected. Skipping.''])
      else
        (case for_each_user operationFn users
                (results, w, [ConsoleLog '''', BarStart (length users) ''Starting...'']) of
           (Inl e, w', out) \<Rightarrow> (Inl e, w', out)
         | (Inr results', w', out) \<Rightarrow>
             (case printBatchReport results' label of
                (Inl e, lines) \<Rightarrow> (Inl e, w', out @ [BarUpdate ''Done'', BarStop] @ lines)
              | (Inr u, lines) \<Rightarrow>
                  (Inr results', w', out @ [BarUpdate ''Done'', BarStop] @ lines))))"

text \<open>
  Concrete operations for the examples, on a world that counts the calls. The first
  throws an \<open>Error\<close> for the handle \<open>u2\<close> and succeeds for every other; the second
  rejects with no reason (\<open>Promise.reject()\<close>) for \<open>u2\<close>; the third throws \<open>null\<close> for
  \<open>bob\<close>.
\<close>

definition throws_for_u2 :: "nat operation" where
  "throws_for_u2 h n =
     (if h = ''u2'' then Inl (JsError ''EACCES: permission denied'')
      else Inr (Some (JStr ''success'')), Suc n)"

definition rejects_for_u2 :: "nat operation" where
  "rejects_for_u2 h n =
     (if h = ''u2'' then Inl (Thrown None) else Inr (Some (JStr ''success'')), Suc n)"


text \<open>
  The reference the executor is compared with: the operation invoked once per handle, in
  input order, each call starting in the world the previous one left. It gives the list of
  the outcomes and the final world.
\<close>

fun invoke_each :: "'w operation \<Rightarrow> string list \<Rightarrow> 'w \<Rightarrow> (js_error + jsval) list \<times> 'w" where
  "invoke_each operationFn [] w = ([], w)"
| "invoke_each operationFn (handle # rest) w =
     (case operationFn handle w of
        (r, w') \<Rightarrow> (case invoke_each operationFn rest w' of (rs, w'') \<Rightarrow> (r # rs, w'')))"

text \<open>The handles of a report, per list.\<close>

definition skipped_handles :: "BatchResults \<Rightarrow> string list" where
  "skipped_handles r = map fst (skipped r)"

definition failed_handles :: "BatchResults \<Rightarrow> string list" where
  "failed_handles r = map fst (failed r)"

text \<open>
  The reason a returned value carries when it is a skip marker (an object whose
  \<open>skipped\<close> property is truthy), \<open>undefined\<close> when it is not one.
\<close>

definition skip_reason :: "jsval \<Rightarrow> jsval" where
  "skip_reason v =
     (case v of
        Some (JObj ps) \<Rightarrow> (if truthy (map_of ps ''skipped'') then map_of ps ''skipped'' else None)
      | _ \<Rightarrow> None)"

text \<open>
  An outcome the \<open>catch\<close> block can record: a returned value, or a thrown value whose
  \<open>message\<close> can be read (any value but \<open>null\<close> and \<open>undefined\<close>); and what it records.
\<close>

definition recordable :: "js_error + jsval \<Rightarrow> bool" where
  "recordable r \<longleftrightarrow>
     (case r of Inl e \<Rightarrow> (case error_message e of Inl e' \<Rightarrow> False | Inr m \<Rightarrow> True) | Inr v \<Rightarrow> True)"

definition recorded :: "js_error \<Rightarrow> jsval" where
  "recorded e = (case error_message e of Inl e' \<Rightarrow> None | Inr m \<Rightarrow> m)"

text \<open>
  "Each handle appears in exactly one of the three lists, as many times as in the input",
  as a predicate of a report and the input.
\<close>

definition in_exactly_one_list :: "BatchResults \<Rightarrow> string list \<Rightarrow> bool" where
  "in_exactly_one_list r users \<longleftrightarrow>
     (\<forall>h \<in> set users.
        (count_list (success r) h = count_list users h \<and>
           count_list (skipped_handles r) h = 0 \<and> count_list (failed_handles r) h = 0) \<or>
        (count_list (success r) h = 0 \<and>
           count_list (skipped_handles r) h = count_list users h \<and>
           count_list (failed_handles r) h = 0) \<or>
        (count_list (success r) h = 0 \<and> count_list (skipped_handles r) h = 0 \<and>
           count_list (failed_handles r) h = count_list users h))"

subsection \<open>The loop, by induction on the handles\<close>

lemma invoke_each_length: "length (fst (invoke_each operationFn users w)) = length users"
  by (induction users arbitrary: w) (simp_all add: split_beta)

lemma classify_Inr:
  "classify h (Inr v) res =
     Inr (if skip_reason v = None then res\<lparr>success := success res @ [h]\<rparr>
          else res\<lparr>skipped := skipped res @ [(h, skip_reason v)]\<rparr>)"
  by (cases v rule: truthy.cases) (auto simp: skip_reason_def)

lemma classify_Inl:
  "recordable (Inl e) \<Longrightarrow>
     classify h (Inl e) res = Inr (res\<lparr>failed := failed res @ [(h, recorded e)]\<rparr>)"
  by (auto simp: recordable_def recorded_def catch_block_def split: sum.splits)

lemma classify_unrecordable:
  "\<not> recordable r \<Longrightarrow> \<exists>e. classify h r res = Inl e"
  by (cases r) (auto simp: recordable_def catch_block_def split: sum.splits)

text \<open>
  While every outcome can be recorded, the loop does what the sequential calls do and
  sorts the handles by their outcomes.
\<close>

lemma for_each_user_recordable:
  assumes "\<forall>r \<in> set (fst (invoke_each operationFn users w)). recordable r"
  shows "\<exists>out'. for_each_user operationFn users (res, w, out) =
           (Inr \<lparr>success = success res @
                    [h. (h, Inr v) \<leftarrow> zip users (fst (invoke_each operationFn users w)),
                        skip_reason v = None],
                 skipped = skipped res @
                    [(h, skip_reason v).
                       (h, Inr v) \<leftarrow> zip users (fst (invoke_each operationFn users w)),
                       skip_reason v \<noteq> None],
                 failed = failed res @
                    [(h, recorded e).
                       (h, Inl e) \<leftarrow> zip users (fst (invoke_each operationFn users w))]\<rparr>,
            snd (invoke_each operationFn users w), out')"
  using assms
proof (induction users arbitrary: res w out)
  case Nil
  then show ?case by simp
next
  case (Cons u us)
  obtain r w' where step: "operationFn u w = (r, w')" by (cases "operationFn u w")
  from Cons.prems have rec: "recordable r"
    and rest: "\<forall>r \<in> set (fst (invoke_each operationFn us w')). recordable r"
    by (simp_all add: step split_beta)
  show ?case
  proof (cases r)
    case (Inl e)
    with rec have c: "classify u r res = Inr (res\<lparr>failed := failed res @ [(u, recorded e)]\<rparr>)"
      by (simp add: classify_Inl del: classify.simps)
    from Cons.IH [OF rest, of "res\<lparr>failed := failed res @ [(u, recorded e)]\<rparr>"
                          "out @ [BarUpdate u, BarIncrement]"]
    show ?thesis
      by (simp add: step c [unfolded Inl] Inl split_beta del: classify.simps)
  next
    case (Inr v)
    show ?thesis
    proof (cases "skip_reason v = None")
      case True
      then have c: "classify u (Inr v) res = Inr (res\<lparr>success := success res @ [u]\<rparr>)"
        by (simp add: classify_Inr del: classify.simps)
      from Cons.IH [OF rest, of "res\<lparr>success := success res @ [u]\<rparr>"
                            "out @ [BarUpdate u, BarIncrement]"]
      show ?thesis
        by (simp add: step c Inr True split_beta del: classify.simps)
    next
      case False
      then obtain y where y: "skip_reason v = Some y" by auto
      from False have c: "classify u (Inr v) res =
          Inr (res\<lparr>skipped := skipped res @ [(u, skip_reason v)]\<rparr>)"
        by (simp add: classify_Inr del: classify.simps)
      from Cons.IH [OF rest, of "res\<lparr>skipped := skipped res @ [(u, Some y)]\<rparr>"
                            "out @ [BarUpdate u, BarIncrement]"]
      show ?thesis
        by (simp add: step c [unfolded y] Inr y split_beta del: classify.simps)
    qed
  qed
qed

text \<open>
  At the first outcome that cannot be recorded the loop is left with what the \<open>catch\<close>
  block threw; the operation is not invoked for the later handles.
\<close>

lemma for_each_user_unrecordable:
  assumes "\<forall>r \<in> set (fst (invoke_each operationFn before w)). recordable r"
    and "\<not> recordable (fst (operationFn h (snd (invoke_each operationFn before w))))"
  shows "\<exists>e out'. for_each_user operationFn (before @ h # later) (res, w, out) =
           (Inl e, snd (invoke_each operationFn (before @ [h]) w), out')"
  using assms
proof (induction before arbitrary: res w out)
  case Nil
  obtain r w' where step: "operationFn h w = (r, w')" by (cases "operationFn h w")
  with Nil.prems(2) have "\<not> recordable r" by simp
  from classify_unrecordable [OF this] obtain e where "classify h r res = Inl e" by blast
  then show ?case by (simp add: step del: classify.simps)
next
  case (Cons u us)
  obtain r w' where step: "operationFn u w = (r, w')" by (cases "operationFn u w")
  from Cons.prems have rec: "recordable r"
    and rest: "\<forall>r \<in> set (fst (invoke_each operationFn us w')). recordable r"
    and bad: "\<not> recordable (fst (operationFn h (snd (invoke_each operationFn us w'))))"
    by (simp_all add: step split_beta)
  obtain res' where c: "classify u r res = Inr res'"
    using rec classify_Inl [of _ u res] classify_Inr [of u _ res] by (cases r) auto
  from Cons.IH [OF rest bad, of res' "out @ [BarUpdate u, BarIncrement]"]
  show ?case
    by (simp add: step c split_beta del: classify.simps)
qed

lemma classify_cases:
  assumes "classify h r res = Inr res'"
  shows "res' = res\<lparr>success := success res @ [h]\<rparr> \<or>
         (\<exists>v. res' = res\<lparr>skipped := skipped res @ [(h, v)]\<rparr>) \<or>
         (\<exists>m. res' = res\<lparr>failed := failed res @ [(h, m)]\<rparr>)"
proof (cases r)
  case (Inl e)
  with assms show ?thesis
    by (auto simp: catch_block_def split: sum.splits)
next
  case (Inr v)
  with assms show ?thesis
    by (auto simp: classify_Inr simp del: classify.simps split: if_splits)
qed

lemma for_each_user_partition:
  assumes "fst (for_each_user operationFn users (res, w, out)) = Inr r"
  shows "\<exists>xs ys zs.
           success r = success res @ xs \<and> skipped r = skipped res @ ys \<and>
           failed r = failed res @ zs \<and>
           mset xs + mset (map fst ys) + mset (map fst zs) = mset users \<and>
           subseq xs users \<and> subseq (map fst ys) users \<and> subseq (map fst zs) users"
  using assms
proof (induction users arbitrary: res w out)
  case Nil
  then show ?case by simp
next
  case (Cons u us)
  obtain rr w1 where step: "operationFn u w = (rr, w1)" by (cases "operationFn u w")
  from Cons.prems obtain res1 where c: "classify u rr res = Inr res1"
    by (cases "classify u rr res") (simp_all add: step del: classify.simps)
  with Cons.prems
  have "fst (for_each_user operationFn us (res1, w1, out @ [BarUpdate u, BarIncrement])) = Inr r"
    by (simp add: step del: classify.simps)
  from Cons.IH [OF this] obtain xs ys zs where
    ih: "success r = success res1 @ xs" "skipped r = skipped res1 @ ys"
      "failed r = failed res1 @ zs"
      "mset xs + mset (map fst ys) + mset (map fst zs) = mset us"
      "subseq xs us" "subseq (map fst ys) us" "subseq (map fst zs) us"
    by blast
  from classify_cases [OF c] consider
      (succ) "res1 = res\<lparr>success := success res @ [u]\<rparr>"
    | (skip) v where "res1 = res\<lparr>skipped := skipped res @ [(u, v)]\<rparr>"
    | (fail) m where "res1 = res\<lparr>failed := failed res @ [(u, m)]\<rparr>"
    by blast
  then show ?case
  proof cases
    case succ
    have "success r = success res @ (u # xs)" "skipped r = skipped res @ ys"
      "failed r = failed res @ zs"
      using ih(1-3) by (simp_all add: succ)
    moreover have "mset (u # xs) + mset (map fst ys) + mset (map fst zs) = mset (u # us)"
      using ih(4) by simp
    moreover have "subseq (u # xs) (u # us)" "subseq (map fst ys) (u # us)"
      "subseq (map fst zs) (u # us)"
      using ih(5-7) by (auto intro: list_emb_Cons)
    ultimately show ?thesis by blast
  next
    case skip
    have "success r = success res @ xs" "skipped r = skipped res @ ((u, v) # ys)"
      "failed r = failed res @ zs"
      using ih(1-3) by (simp_all add: skip)
    moreover have "mset xs + mset (map fst ((u, v) # ys)) + mset (map fst zs) = mset (u # us)"
      using ih(4) by simp
    moreover have "subseq xs (u # us)" "subseq (map fst ((u, v) # ys)) (u # us)"
      "subseq (map fst zs) (u # us)"
      using ih(5-7) by (auto intro: list_emb_Cons)
    ultimately show ?thesis by blast
  next
    case fail
    have "success r = success res @ xs" "skipped r = skipped res @ ys"
      "failed r = failed res @ ((u, m) # zs)"
      using ih(1-3) by (simp_all add: fail)
    moreover have "mset xs + mset (map fst ys) + mset (map fst ((u, m) # zs)) = mset (u # us)"
      using ih(4) by simp
    moreover have "subseq xs (u # us)" "subseq (map fst ys) (u # us)"
      "subseq (map fst ((u, m) # zs)) (u # us)"
      using ih(5-7) by (auto intro: list_emb_Cons)
    ultimately show ?thesis by blast
  qed
qed

subsection \<open>The report\<close>

lemma report_lines_printable:
  "list_all (\<lambda>(h, v). printable v) entries \<Longrightarrow> fst (report_lines entries) = Inr ()"
  by (induction entries) (auto simp: split_beta)

lemma printBatchReport_printable:
  assumes "list_all (\<lambda>(h, v). printable v) (skipped results)"
    and "list_all (\<lambda>(h, v). printable v) (failed results)"
  shows "fst (printBatchReport results label) = Inr ()"
proof -
  have "fst (report_section ''Skipped'' (skipped results)) = Inr ()"
    "fst (report_section ''Failed'' (failed results)) = Inr ()"
    using assms by (simp_all add: report_section_def report_lines_printable split_beta)
  then show ?thesis
    by (cases "report_section ''Skipped'' (skipped results)";
        cases "report_section ''Failed'' (failed results)")
       (simp add: printBatchReport_def)
qed

lemma batchOperation_report:
  assumes "fst (batchOperation users operationFn label w) = Inr r"
  shows "users = [] \<and> r = \<lparr>success = [], skipped = [], failed = []\<rparr> \<or>
         fst (for_each_user operationFn users
                (\<lparr>success = [], skipped = [], failed = []\<rparr>, w,
                 [ConsoleLog '''', BarStart (length users) ''Starting...''])) = Inr r"
proof (cases users)
  case Nil
  with assms show ?thesis by (simp add: batchOperation_def)
next
  case (Cons u us)
  then have "length users \<noteq> 0" by simp
  with assms show ?thesis
    by (auto simp: batchOperation_def Let_def split: prod.splits sum.splits)
qed

text \<open>
  When \<open>batchOperation\<close> returns a report, the handles of its three lists are together
  the handles of the input, with the same multiplicities; the lengths of the lists sum to
  the length of the input; each list keeps the processing order; and when the handles of
  the input are pairwise distinct, each of them is in exactly one list.
\<close>

lemma report_partition:
  assumes "fst (batchOperation users operationFn label w) = Inr r"
  shows "mset (success r) + mset (skipped_handles r) + mset (failed_handles r) = mset users"
    and "length (success r) + length (skipped r) + length (failed r) = length users"
    and "subseq (success r) users" and "subseq (skipped_handles r) users"
    and "subseq (failed_handles r) users"
    and "distinct users \<Longrightarrow> in_exactly_one_list r users"
proof -
  have "\<exists>xs ys zs.
           success r = xs \<and> skipped r = ys \<and> failed r = zs \<and>
           mset xs + mset (map fst ys) + mset (map fst zs) = mset users \<and>
           subseq xs users \<and> subseq (map fst ys) users \<and> subseq (map fst zs) users"
    using batchOperation_report [OF assms]
  proof
    assume "users = [] \<and> r = \<lparr>success = [], skipped = [], failed = []\<rparr>"
    then show ?thesis by simp
  next
    assume "fst (for_each_user operationFn users
                (\<lparr>success = [], skipped = [], failed = []\<rparr>, w,
                 [ConsoleLog '''', BarStart (length users) ''Starting...''])) = Inr r"
    from for_each_user_partition [OF this] show ?thesis by simp
  qed
  then show m: "mset (success r) + mset (skipped_handles r) + mset (failed_handles r) = mset users"
    and "subseq (success r) users" and "subseq (skipped_handles r) users"
    and "subseq (failed_handles r) users"
    by (simp_all add: skipped_handles_def failed_handles_def)
  have "size (mset (success r) + mset (skipped_handles r) + mset (failed_handles r)) =
        size (mset users)"
    by (simp only: m)
  then show "length (success r) + length (skipped r) + length (failed r) = length users"
    by (simp add: skipped_handles_def failed_handles_def)
  assume d: "distinct users"
  show "in_exactly_one_list r users"
    unfolding in_exactly_one_list_def
  proof
    fix h assume "h \<in> set users"
    with d have one: "count_list users h = 1"
      by (simp add: distinct_count_atmost_1 count_mset [symmetric] del: count_mset)
    have "count (mset (success r) + mset (skipped_handles r) + mset (failed_handles r)) h =
          count (mset users) h"
      by (simp only: m)
    then have "count_list (success r) h + count_list (skipped_handles r) h +
        count_list (failed_handles r) h = count_list users h"
      by (simp add: count_mset)
    with one
    show "(count_list (success r) h = count_list users h \<and>
           count_list (skipped_handles r) h = 0 \<and> count_list (failed_handles r) h = 0) \<or>
        (count_list (success r) h = 0 \<and>
           count_list (skipped_handles r) h = count_list users h \<and>
           count_list (failed_handles r) h = 0) \<or>
        (count_list (success r) h = 0 \<and> count_list (skipped_handles r) h = 0 \<and>
           count_list (failed_handles r) h = count_list users h)"
      by arith
  qed
qed

text \<open>
  Failure isolation, where it holds: when every thrown value has a \<open>message\<close> that can
  be read and every reason and message can be printed, \<open>batchOperation\<close> invokes the
  operation once per handle in input order and returns the report that sorts the handles
  by their outcomes.
\<close>

lemma batchOperation_isolates:
  fixes users operationFn w
  defines "zs \<equiv> zip users (fst (invoke_each operationFn users w))"
  assumes rec: "\<forall>r \<in> set (fst (invoke_each operationFn users w)). recordable r"
    and reasons: "list_all (\<lambda>(h, r). case r of Inl e \<Rightarrow> printable (recorded e)
                                        | Inr v \<Rightarrow> printable (skip_reason v)) zs"
  shows "fst (batchOperation users operationFn label w) =
           Inr \<lparr>success = [h. (h, Inr v) \<leftarrow> zs, skip_reason v = None],
                skipped = [(h, skip_reason v). (h, Inr v) \<leftarrow> zs, skip_reason v \<noteq> None],
                failed = [(h, recorded e). (h, Inl e) \<leftarrow> zs]\<rparr>"
    and "fst (snd (batchOperation users operationFn label w)) =
           snd (invoke_each operationFn users w)"
proof -
  define r where "r = \<lparr>success = [h. (h, Inr v) \<leftarrow> zs, skip_reason v = None],
             skipped = [(h, skip_reason v). (h, Inr v) \<leftarrow> zs, skip_reason v \<noteq> None],
             failed = [(h, recorded e). (h, Inl e) \<leftarrow> zs]\<rparr>"
  from for_each_user_recordable [OF rec,
      of "\<lparr>success = [], skipped = [], failed = []\<rparr>"
         "[ConsoleLog '''', BarStart (length users) ''Starting...'']"]
  obtain out' where loop: "for_each_user operationFn users
      (\<lparr>success = [], skipped = [], failed = []\<rparr>, w,
       [ConsoleLog '''', BarStart (length users) ''Starting...'']) =
      (Inr r, snd (invoke_each operationFn users w), out')"
    unfolding zs_def r_def by auto
  have "list_all (\<lambda>(h, v). printable v) (skipped r)"
    "list_all (\<lambda>(h, v). printable v) (failed r)"
    unfolding r_def using reasons by (induction zs; auto split: sum.splits)+
  from printBatchReport_printable [OF this, of label]
  have pr: "fst (printBatchReport r label) = Inr ()" .
  have both: "fst (batchOperation users operationFn label w) = Inr r \<and>
      fst (snd (batchOperation users operationFn label w)) =
           snd (invoke_each operationFn users w)"
  proof (cases users)
    case Nil
    then show ?thesis
      by (simp add: batchOperation_def zs_def r_def)
  next
    case (Cons u us)
    then have ne: "length users \<noteq> 0" by simp
    obtain lines where lines: "printBatchReport r label = (Inr (), lines)"
      using pr by (cases "printBatchReport r label") auto
    from ne loop lines show ?thesis
      by (simp add: batchOperation_def Let_def)
  qed
  from both show "fst (batchOperation users operationFn label w) =
           Inr \<lparr>success = [h. (h, Inr v) \<leftarrow> zs, skip_reason v = None],
                skipped = [(h, skip_reason v). (h, Inr v) \<leftarrow> zs, skip_reason v \<noteq> None],
                failed = [(h, recorded e). (h, Inl e) \<leftarrow> zs]\<rparr>"
    unfolding r_def ..
  from both show "fst (snd (batchOperation users operationFn label w)) =
           snd (invoke_each operationFn users w)" ..
qed

text \<open>
  Where it fails: at the first handle whose operation throws \<open>null\<close> or \<open>undefined\<close>,
  \<open>batchOperation\<close> throws; there is no report, and the operation is not invoked for the
  later handles.
\<close>

lemma batchOperation_rejects:
  assumes "\<forall>r \<in> set (fst (invoke_each operationFn before w)). recordable r"
    and "\<not> recordable (fst (operationFn h (snd (invoke_each operationFn before w))))"
  shows "\<exists>e. fst (batchOperation (before @ h # later) operationFn label w) = Inl e"
    and "fst (snd (batchOperation (before @ h # later) operationFn label w)) =
           snd (invoke_each operationFn (before @ [h]) w)"
proof -
  from for_each_user_unrecordable [OF assms,
      of later "\<lparr>success = [], skipped = [], failed = []\<rparr>"
         "[ConsoleLog '''', BarStart (length (before @ h # later)) ''Starting...'']"]
  obtain e out' where "for_each_user operationFn (before @ h # later)
      (\<lparr>success = [], skipped = [], failed = []\<rparr>, w,
       [ConsoleLog '''', BarStart (length (before @ h # later)) ''Starting...'']) =
      (Inl e, snd (invoke_each operationFn (before @ [h]) w), out')"
    by blast
  then show "\<exists>e. fst (batchOperation (before @ h # later) operationFn label w) = Inl e"
    and "fst (snd (batchOperation (before @ h # later) operationFn label w)) =
           snd (invoke_each operationFn (before @ [h]) w)"
    by (simp_all add: batchOperation_def Let_def)
qed

subsection \<open>Failure isolation\<close>

text \<open>
  C1. The claim is that, for every list of handles and every operation, a handle whose
  operation throws is recorded in \<open>failed\<close> with the message of what was thrown, the
  later handles are still processed, and nothing is thrown out of \<open>batchOperation\<close>.
  The code does so when the thrown value has a \<open>message\<close> to read
  (\<open>batchOperation_isolates\<close>): for three units of which the second throws an \<open>Error\<close>,
  the report is \<open>success = [u1, u3]\<close>, \<open>failed = [(u2, message)]\<close>, \<open>skipped = []\<close>.
  It does not when the operation rejects with no reason: for the same three units, the
  \<open>catch\<close> block throws a \<open>TypeError\<close> on reading \<open>err.message\<close>, \<open>batchOperation\<close>
  throws it in its turn after two calls of the operation, and \<open>u3\<close> is never processed.
\<close>

theorem batchOperation_failure_isolation:
  "batchOperation [''u1'', ''u2'', ''u3''] rejects_for_u2 ''Push Character Card'' 0 =
     (Inl (JsError ''Cannot read properties of undefined (reading message)''), 2,
      [ConsoleLog '''', BarStart 3 ''Starting...'', BarUpdate ''u1'', BarIncrement,
       BarUpdate ''u2'']) \<and>
   fst (batchOperation [''u1'', ''u2'', ''u3''] throws_for_u2 ''Push Character Card'' 0) =
     Inr \<lparr>success = [''u1'', ''u3''], skipped = [],
          failed = [(''u2'', Some (JStr ''EACCES: permission denied''))]\<rparr>"
  by (simp add: batchOperation_def rejects_for_u2_def throws_for_u2_def catch_block_def
      printBatchReport_def report_section_def printable_def)

subsection \<open>The report partitions the input\<close>


section \<open>The file system\<close>

text \<open>
  A path is the list of the components of a normalised absolute path, so that
  \<open>join\<close> is concatenation, \<open>dirname\<close> drops the last component and \<open>basename\<close>
  is the last one. A node is a regular file with its content, a symbolic link with
  its (absolute) target, or a directory. The world holds the nodes, the mutating system
  calls made so far (oldest first) and the lines printed by \<open>info\<close>.
\<close>

type_synonym path = "string list"

datatype node = File string | Symlink path | Dir

text \<open>
  A mutating call, as the file system saw it: for a write or a copy, whether the
  destination existed before (it was overwritten) or not (it was created); for an unlink,
  the node that was removed.
\<close>

datatype fs_event =
    Mkdir path
  | CopyFile path path bool
  | WriteFile path bool
  | Unlink path node
  | MakeSymlink path path

record world =
  nodes :: "path \<Rightarrow> node option"
  syscalls :: "fs_event list"
  console :: "string list"

definition join :: "path \<Rightarrow> path \<Rightarrow> path" where
  "join a b = a @ b"

definition dirname :: "path \<Rightarrow> path" where
  "dirname p = butlast p"

definition basename :: "path \<Rightarrow> string" where
  "basename p = (if p = [] then [] else last p)"

text \<open>\<open>path.resolve\<close> of a path that is already absolute and normalised.\<close>

definition resolve :: "path \<Rightarrow> path" where
  "resolve p = p"

fun path_str :: "path \<Rightarrow> string" where
  "path_str [] = []"
| "path_str (c # cs) = ''/'' @ c @ path_str cs"

text \<open>
  Following the symbolic links at the end of a path, at most \<open>n\<close> of them (the kernel
  gives up with \<open>ELOOP\<close>); the root is a directory.
\<close>

fun follow :: "nat \<Rightarrow> (path \<Rightarrow> node option) \<Rightarrow> path \<Rightarrow> path option" where
  "follow 0 ns p = None"
| "follow (Suc n) ns p =
     (case ns p of Some (Symlink t) \<Rightarrow> follow n ns t | _ \<Rightarrow> Some p)"

definition lstat :: "world \<Rightarrow> path \<Rightarrow> node option" where
  "lstat w p = (if p = [] then Some Dir else nodes w p)"

definition stat :: "world \<Rightarrow> path \<Rightarrow> node option" where
  "stat w p = (case follow 40 (nodes w) p of None \<Rightarrow> None | Some q \<Rightarrow> lstat w q)"

definition is_dir :: "world \<Rightarrow> path \<Rightarrow> bool" where
  "is_dir w p \<longleftrightarrow> stat w p = Some Dir"

definition enoent :: "string \<Rightarrow> path \<Rightarrow> js_error" where
  "enoent call p = JsError (''ENOENT: no such file or directory, '' @ call @ '' '' @ path_str p)"

definition fs_error :: "string \<Rightarrow> string \<Rightarrow> path \<Rightarrow> js_error" where
  "fs_error code call p = JsError (code @ '': '' @ call @ '' '' @ path_str p)"

text \<open>\<open>existsSync\<close> follows links and never throws.\<close>

definition existsSync :: "world \<Rightarrow> path \<Rightarrow> bool" where
  "existsSync w p \<longleftrightarrow> stat w p \<noteq> None"

definition lstatSync :: "world \<Rightarrow> path \<Rightarrow> js_error + node" where
  "lstatSync w p = (case lstat w p of None \<Rightarrow> Inl (enoent ''lstat'' p) | Some n \<Rightarrow> Inr n)"

fun isSymbolicLink :: "node \<Rightarrow> bool" where
  "isSymbolicLink (Symlink t) = True"
| "isSymbolicLink n = False"

definition readlinkSync :: "world \<Rightarrow> path \<Rightarrow> js_error + path" where
  "readlinkSync w p =
     (case lstat w p of
        None \<Rightarrow> Inl (enoent ''readlink'' p)
      | Some (Symlink t) \<Rightarrow> Inr t
      | Some n \<Rightarrow> Inl (fs_error ''EINVAL'' ''readlink'' p))"

definition readFileSync :: "world \<Rightarrow> path \<Rightarrow> js_error + string" where
  "readFileSync w p =
     (case stat w p of
        None \<Rightarrow> Inl (enoent ''open'' p)
      | Some (File c) \<Rightarrow> Inr c
      | Some n \<Rightarrow> Inl (fs_error ''EISDIR'' ''read'' p))"

definition emit :: "fs_event \<Rightarrow> world \<Rightarrow> world" where
  "emit e w = w\<lparr>syscalls := syscalls w @ [e]\<rparr>"

definition info :: "string \<Rightarrow> world \<Rightarrow> world" where
  "info msg w = w\<lparr>console := console w @ [msg]\<rparr>"

text \<open>
  Writing the content \<open>c\<close> at \<open>p\<close>, through a link at \<open>p\<close>: the directory of the
  file written must exist, and the file must not be a directory.
\<close>

definition put_file :: "string \<Rightarrow> path \<Rightarrow> string \<Rightarrow> (bool \<Rightarrow> fs_event) \<Rightarrow> world
    \<Rightarrow> (js_error + unit) \<times> world" where
  "put_file call p c ev w =
     (case follow 40 (nodes w) p of
        None \<Rightarrow> (Inl (fs_error ''ELOOP'' call p), w)
      | Some q \<Rightarrow>
          if q = [] \<or> lstat w q = Some Dir then (Inl (fs_error ''EISDIR'' call p), w)
          else if \<not> is_dir w (dirname q) then (Inl (enoent call p), w)
          else (Inr (), emit (ev (lstat w q \<noteq> None)) (w\<lparr>nodes := (nodes w)(q \<mapsto> File c)\<rparr>)))"


definition copyFileSync :: "path \<Rightarrow> path \<Rightarrow> world \<Rightarrow> (js_error + unit) \<times> world" where
  "copyFileSync src dst w =
     (case readFileSync w src of
        Inl e \<Rightarrow> (Inl e, w)
      | Inr c \<Rightarrow> put_file ''copyfile'' dst c (CopyFile src dst) w)"

definition unlinkSync :: "path \<Rightarrow> world \<Rightarrow> (js_error + unit) \<times> world" where
  "unlinkSync p w =
     (case lstat w p of
        None \<Rightarrow> (Inl (enoent ''unlink'' p), w)
      | Some Dir \<Rightarrow> (Inl (fs_error ''EPERM'' ''unlink'' p), w)
      | Some n \<Rightarrow> (Inr (), emit (Unlink p n) (w\<lparr>nodes := (nodes w)(p := None)\<rparr>)))"

definition symlinkSync :: "path \<Rightarrow> path \<Rightarrow> world \<Rightarrow> (js_error + unit) \<times> world" where
  "symlinkSync target p w =
     (if lstat w p \<noteq> None then (Inl (fs_error ''EEXIST'' ''symlink'' p), w)
      else if \<not> is_dir w (dirname p) then (Inl (enoent ''symlink'' p), w)
      else (Inr (), emit (MakeSymlink target p) (w\<lparr>nodes := (nodes w)(p \<mapsto> Symlink target)\<rparr>)))"

text \<open>
  \<open>mkdirSync(p, {recursive: true})\<close>: every missing directory on the way to \<open>p\<close> is
  made, outermost first; an existing directory is left as it is; anything else in the
  way is an error.
\<close>

fun mkdir_prefixes :: "path \<Rightarrow> string list \<Rightarrow> world \<Rightarrow> (js_error + unit) \<times> world" where
  "mkdir_prefixes made [] w = (Inr (), w)"
| "mkdir_prefixes made (c # cs) w =
     (let p = made @ [c] in
      case stat w p of
        Some Dir \<Rightarrow> mkdir_prefixes p cs w
      | Some n \<Rightarrow> (Inl (fs_error (if cs = [] then ''EEXIST'' else ''ENOTDIR'') ''mkdir'' p), w)
      | None \<Rightarrow>
          if lstat w p \<noteq> None then (Inl (fs_error ''EEXIST'' ''mkdir'' p), w)
          else mkdir_prefixes p cs (emit (Mkdir p) (w\<lparr>nodes := (nodes w)(p \<mapsto> Dir)\<rparr>)))"

definition mkdirSync_recursive :: "path \<Rightarrow> world \<Rightarrow> (js_error + unit) \<times> world" where
  "mkdirSync_recursive p w = mkdir_prefixes [] p w"

section \<open>Snapshot store (\<open>backupFile\<close>, \<open>backupUserFile\<close>, \<open>backupToAdmin\<close>)\<close>

text \<open>
  \<open>timestamp()\<close> reads the clock; the string it returns is the parameter \<open>ts\<close> of the
  functions that call it. \<open>null\<close> is \<open>None\<close>.
\<close>

definition backupFile :: "string \<Rightarrow> path \<Rightarrow> path \<Rightarrow> world \<Rightarrow> (js_error + path option) \<times> world" where
  "backupFile ts filePath backupDir w =
     (if \<not> existsSync w filePath then (Inr None, w)
      else
        (let backupName = basename filePath @ ''.'' @ ts @ ''.bak'';
             backupPath = join backupDir [backupName]
         in case mkdirSync_recursive backupDir w of
              (Inl e, w1) \<Rightarrow> (Inl e, w1)
            | (Inr u, w1) \<Rightarrow>
                (case copyFileSync filePath backupPath w1 of
                   (Inl e, w2) \<Rightarrow> (Inl e, w2)
                 | (Inr u', w2) \<Rightarrow> (Inr (Some backupPath), w2))))"

definition backupUserFile ::
  "string \<Rightarrow> path \<Rightarrow> string \<Rightarrow> path \<Rightarrow> bool \<Rightarrow> world \<Rightarrow> (js_error + path option) \<times> world" where
  "backupUserFile ts dataRoot handle relativeFilePath dryRun w =
     (let source = join dataRoot (handle # relativeFilePath);
          backupDir = join dataRoot [handle, ''backups'', ''admin-snapshots'']
      in if \<not> existsSync w source then (Inr None, w)
         else if dryRun
         then (Inr None,
               info (''[DRY RUN] Would backup '' @ path_str source @ '' -> '' @ path_str backupDir @ ''/'') w)
         else backupFile ts source backupDir w)"

definition backupToAdmin ::
  "string \<Rightarrow> string \<Rightarrow> path \<Rightarrow> path \<Rightarrow> string \<Rightarrow> bool \<Rightarrow> world
     \<Rightarrow> (js_error + path option) \<times> world" where
  "backupToAdmin ts_dir ts backupRoot filePath label dryRun w =
     (let dir = join backupRoot [label @ ''-'' @ ts_dir]
      in if dryRun
         then (Inr None,
               info (''[DRY RUN] Would backup '' @ path_str filePath @ '' -> '' @ path_str dir @ ''/'') w)
         else backupFile ts filePath dir w)"

text \<open>A world with no file at all, for the examples.\<close>

definition empty_world :: world where
  "empty_world = \<lparr>nodes = (\<lambda>p. None), syscalls = [], console = []\<rparr>"

lemma follow_missing: "ns p = None \<Longrightarrow> follow (Suc n) ns p = Some p"
  by simp

lemma existsSync_empty_world: "\<not> existsSync empty_world (c # cs)"
  by (simp add: existsSync_def stat_def lstat_def empty_world_def eval_nat_numeral)

text \<open>
  C7. When the source path does not exist, \<open>backupFile\<close> returns \<open>null\<close> and leaves the
  world as it is: no write, no directory made (the destination area is not created). The
  same holds through the centralized mode (\<open>backupToAdmin\<close>, which in a dry run only
  prints a line) and through the owner-scoped mode (\<open>backupUserFile\<close>).
\<close>

theorem snapshot_of_missing_source:
  "(\<not> existsSync w filePath \<longrightarrow>
      backupFile ts filePath backupDir w = (Inr None, w) \<and>
      (\<forall>dryRun.
         fst (backupToAdmin ts_dir ts backupRoot filePath label dryRun w) = Inr None \<and>
         nodes (snd (backupToAdmin ts_dir ts backupRoot filePath label dryRun w)) = nodes w \<and>
         syscalls (snd (backupToAdmin ts_dir ts backupRoot filePath label dryRun w)) = syscalls w)) \<and>
   (\<not> existsSync w (join dataRoot (handle # relativeFilePath)) \<longrightarrow>
      (\<forall>dryRun. backupUserFile ts dataRoot handle relativeFilePath dryRun w = (Inr None, w)))"
  by (simp add: backupFile_def backupToAdmin_def backupUserFile_def info_def Let_def)

theorem snapshot_of_missing_source_witness:
  "\<not> existsSync empty_world [''data'', ''alice'', ''settings.json''] \<and>
   backupFile ''2025-01-15-143022'' [''data'', ''alice'', ''settings.json'']
     [''data'', ''alice'', ''backups'', ''admin-snapshots''] empty_world = (Inr None, empty_world) \<and>
   backupUserFile ''2025-01-15-143022'' [''data''] ''alice'' [''settings.json''] False empty_world
     = (Inr None, empty_world) \<and>
   syscalls (snd (backupToAdmin ''2025-01-15-143022'' ''2025-01-15-143022'' [''_admin-backups'']
     [''data'', ''alice'', ''settings.json''] ''scaffold-index'' False empty_world)) = []"
  using snapshot_of_missing_source
    [where w = empty_world and filePath = "[''data'', ''alice'', ''settings.json'']"
       and dataRoot = "[''data'']" and handle = "''alice''"
       and relativeFilePath = "[''settings.json'']" and ts = "''2025-01-15-143022''"
       and ts_dir = "''2025-01-15-143022''" and backupRoot = "[''_admin-backups'']"
       and label = "''scaffold-index''"
       and backupDir = "[''data'', ''alice'', ''backups'', ''admin-snapshots'']"]
    existsSync_empty_world
  by (simp add: join_def empty_world_def)

section \<open>Index repository (\<open>readIndex\<close>, \<open>addEntry\<close>, \<open>removeEntries\<close>)\<close>

text \<open>
  \<open>JSON.parse\<close> is the runtime's: it is the parameter \<open>JSON_parse\<close>, which gives the
  parsed value or the \<open>SyntaxError\<close> it throws. \<open>try { ... } catch { ... }\<close> is
  \<open>try_catch\<close>.
\<close>

definition try_catch :: "js_error + 'a \<Rightarrow> (js_error \<Rightarrow> js_error + 'a) \<Rightarrow> js_error + 'a" where
  "try_catch body handler = (case body of Inl e \<Rightarrow> handler e | Inr v \<Rightarrow> Inr v)"

fun Array_isArray :: "json \<Rightarrow> bool" where
  "Array_isArray (JArr xs) = True"
| "Array_isArray v = False"

fun elements :: "json \<Rightarrow> json list" where
  "elements (JArr xs) = xs"
| "elements v = []"

definition readIndex :: "(string \<Rightarrow> js_error + json) \<Rightarrow> world \<Rightarrow> path \<Rightarrow> js_error + json list" where
  "readIndex JSON_parse w indexPath =
     (if \<not> existsSync w indexPath then Inr []
      else
        try_catch
          (case readFileSync w indexPath of
             Inl e \<Rightarrow> Inl e
           | Inr raw \<Rightarrow>
               (case JSON_parse raw of
                  Inl e \<Rightarrow> Inl e
                | Inr parsed \<Rightarrow> Inr (if Array_isArray parsed then elements parsed else [])))
          (\<lambda>e. Inr []))"

text \<open>
  \<open>===\<close> on two values read from properties: by value on \<open>undefined\<close>, \<open>null\<close>,
  booleans, numbers and strings; two arrays or objects are equal only when they are the
  same object, which a value does not tell, so they are taken as distinct.
\<close>

fun strict_equals :: "jsval \<Rightarrow> jsval \<Rightarrow> bool" where
  "strict_equals None None = True"
| "strict_equals (Some JNull) (Some JNull) = True"
| "strict_equals (Some (JBool a)) (Some (JBool b)) = (a = b)"
| "strict_equals (Some (JNum a)) (Some (JNum b)) = (a = b)"
| "strict_equals (Some (JStr a)) (Some (JStr b)) = (a = b)"
| "strict_equals a b = False"

text \<open>\<open>index.some(e => e.filename === entry.filename)\<close>, left to right, stopping at the first match.\<close>

fun some_same_filename :: "json list \<Rightarrow> json \<Rightarrow> js_error + bool" where
  "some_same_filename [] entry = Inr False"
| "some_same_filename (e # es) entry =
     (case get_member (Some e) ''filename'' of
        Inl err \<Rightarrow> Inl err
      | Inr f \<Rightarrow>
          (case get_member (Some entry) ''filename'' of
             Inl err \<Rightarrow> Inl err
           | Inr g \<Rightarrow> if strict_equals f g then Inr True else some_same_filename es entry))"

definition addEntry :: "json list \<Rightarrow> json \<Rightarrow> js_error + json list" where
  "addEntry index entry =
     (case some_same_filename index entry of
        Inl err \<Rightarrow> Inl err
      | Inr exists \<Rightarrow> if exists then Inr index else Inr (index @ [entry]))"

text \<open>\<open>filenames.includes(v)\<close> for an array of strings.\<close>

fun Array_includes :: "string list \<Rightarrow> jsval \<Rightarrow> bool" where
  "Array_includes filenames (Some (JStr f)) = (f \<in> set filenames)"
| "Array_includes filenames v = False"

text \<open>\<open>index.filter(e => !filenames.includes(e.filename))\<close>.\<close>

fun removeEntries :: "json list \<Rightarrow> string list \<Rightarrow> js_error + json list" where
  "removeEntries [] filenames = Inr []"
| "removeEntries (e # es) filenames =
     (case get_member (Some e) ''filename'' of
        Inl err \<Rightarrow> Inl err
      | Inr f \<Rightarrow>
          (case removeEntries es filenames of
             Inl err \<Rightarrow> Inl err
           | Inr kept \<Rightarrow> Inr (if \<not> Array_includes filenames f then e # kept else kept)))"

text \<open>
  A content-descriptor record: an object with a string \<open>filename\<close>; \<open>filename_of\<close>
  reads it.
\<close>

fun filename_of :: "json \<Rightarrow> string option" where
  "filename_of (JObj ps) = (case map_of ps ''filename'' of Some (JStr f) \<Rightarrow> Some f | _ \<Rightarrow> None)"
| "filename_of v = None"

definition is_record :: "json \<Rightarrow> bool" where
  "is_record e \<longleftrightarrow> filename_of e \<noteq> None"

text \<open>A world with one file, for the examples.\<close>

definition one_file_world :: "path \<Rightarrow> string \<Rightarrow> world" where
  "one_file_world p c = \<lparr>nodes = (\<lambda>q. if q = p then Some (File c) else None), syscalls = [], console = []\<rparr>"

text \<open>An index entry \<open>{filename: f, type: t}\<close>.\<close>

definition index_entry :: "string \<Rightarrow> string \<Rightarrow> json" where
  "index_entry f t = JObj [(''filename'', JStr f), (''type'', JStr t)]"

subsection \<open>Reading\<close>

text \<open>
  C8. \<open>readIndex\<close> never throws: it always returns a collection. The collection is empty
  when the file does not exist, when it cannot be read, when its content fails to parse,
  and when the parsed content is not an array; otherwise it is the parsed array.
\<close>

theorem readIndex_fails_open:
  "(\<exists>entries. readIndex JSON_parse w indexPath = Inr entries) \<and>
   (\<not> existsSync w indexPath \<longrightarrow> readIndex JSON_parse w indexPath = Inr []) \<and>
   (\<forall>e. readFileSync w indexPath = Inl e \<longrightarrow> readIndex JSON_parse w indexPath = Inr []) \<and>
   (\<forall>raw e. readFileSync w indexPath = Inr raw \<and> JSON_parse raw = Inl e
      \<longrightarrow> readIndex JSON_parse w indexPath = Inr []) \<and>
   (\<forall>raw parsed. readFileSync w indexPath = Inr raw \<and> JSON_parse raw = Inr parsed \<and>
        (\<forall>xs. parsed \<noteq> JArr xs)
      \<longrightarrow> readIndex JSON_parse w indexPath = Inr []) \<and>
   (\<forall>raw xs. readFileSync w indexPath = Inr raw \<and> JSON_parse raw = Inr (JArr xs)
      \<longrightarrow> readIndex JSON_parse w indexPath = Inr xs)"
proof (intro conjI allI impI)
  show "\<exists>entries. readIndex JSON_parse w indexPath = Inr entries"
    by (auto simp: readIndex_def try_catch_def split: sum.splits)
next
  assume "\<not> existsSync w indexPath"
  then show "readIndex JSON_parse w indexPath = Inr []"
    by (simp add: readIndex_def)
next
  fix e assume "readFileSync w indexPath = Inl e"
  then show "readIndex JSON_parse w indexPath = Inr []"
    by (simp add: readIndex_def try_catch_def)
next
  fix raw e assume "readFileSync w indexPath = Inr raw \<and> JSON_parse raw = Inl e"
  then show "readIndex JSON_parse w indexPath = Inr []"
    by (simp add: readIndex_def try_catch_def)
next
  fix raw parsed
  assume "readFileSync w indexPath = Inr raw \<and> JSON_parse raw = Inr parsed \<and>
        (\<forall>xs. parsed \<noteq> JArr xs)"
  then show "readIndex JSON_parse w indexPath = Inr []"
    by (cases parsed) (simp_all add: readIndex_def try_catch_def)
next
  fix raw xs
  assume h: "readFileSync w indexPath = Inr raw \<and> JSON_parse raw = Inr (JArr xs)"
  then have "existsSync w indexPath"
    by (auto simp: readFileSync_def existsSync_def split: option.splits)
  with h show "readIndex JSON_parse w indexPath = Inr xs"
    by (simp add: readIndex_def try_catch_def)
qed

text \<open>
  A parser for the examples: it knows the texts \<open>[]\<close>, \<open>{}\<close> and \<open>[1,2]\<close>, and
  rejects every other text.
\<close>

definition tiny_parse :: "string \<Rightarrow> js_error + json" where
  "tiny_parse raw =
     (if raw = ''[]'' then Inr (JArr [])
      else if raw = ''{}'' then Inr (JObj [])
      else if raw = ''[1,2]'' then Inr (JArr [JNum 1, JNum 2])
      else Inl (JsError ''SyntaxError: Unexpected token''))"

lemma readFileSync_one_file: "readFileSync (one_file_world (c # cs) raw) (c # cs) = Inr raw"
  by (simp add: readFileSync_def stat_def lstat_def one_file_world_def eval_nat_numeral)

theorem readIndex_fails_open_witness:
  "readIndex tiny_parse (one_file_world [''scaffold'', ''index.json''] ''{}'')
     [''scaffold'', ''index.json''] = Inr [] \<and>
   readIndex tiny_parse (one_file_world [''scaffold'', ''index.json''] ''[1,'')
     [''scaffold'', ''index.json''] = Inr [] \<and>
   readIndex tiny_parse (one_file_world [''scaffold'', ''index.json''] ''[]'')
     [''content'', ''index.json''] = Inr []"
proof (intro conjI)
  let ?p = "[''scaffold'', ''index.json'']"
  have "readFileSync (one_file_world ?p ''{}'') ?p = Inr ''{}'' \<and>
        tiny_parse ''{}'' = Inr (JObj []) \<and> (\<forall>xs. JObj [] \<noteq> JArr xs)"
    by (simp add: readFileSync_one_file tiny_parse_def)
  with readIndex_fails_open [where JSON_parse = tiny_parse and w = "one_file_world ?p ''{}''"
      and indexPath = ?p]
  show "readIndex tiny_parse (one_file_world ?p ''{}'') ?p = Inr []"
    by blast
  have "readFileSync (one_file_world ?p ''[1,'') ?p = Inr ''[1,'' \<and>
        tiny_parse ''[1,'' = Inl (JsError ''SyntaxError: Unexpected token'')"
    by (simp add: readFileSync_one_file tiny_parse_def)
  with readIndex_fails_open [where JSON_parse = tiny_parse and w = "one_file_world ?p ''[1,''"
      and indexPath = ?p]
  show "readIndex tiny_parse (one_file_world ?p ''[1,'') ?p = Inr []"
    by blast
  have "\<not> existsSync (one_file_world ?p ''[]'') [''content'', ''index.json'']"
    by (simp add: existsSync_def stat_def lstat_def one_file_world_def eval_nat_numeral)
  with readIndex_fails_open [where JSON_parse = tiny_parse and w = "one_file_world ?p ''[]''"
      and indexPath = "[''content'', ''index.json'']"]
  show "readIndex tiny_parse (one_file_world ?p ''[]'') [''content'', ''index.json''] = Inr []"
    by blast
qed

subsection \<open>Adding and removing\<close>

lemma filename_of_member:
  "filename_of e = Some f \<Longrightarrow> get_member (Some e) ''filename'' = Inr (Some (JStr f))"
  by (cases e) (auto split: option.splits json.splits)

lemma some_same_filename_records:
  "\<forall>e \<in> set index. is_record e \<Longrightarrow> filename_of entry = Some g \<Longrightarrow>
     some_same_filename index entry = Inr (\<exists>e \<in> set index. filename_of e = Some g)"
proof (induction index)
  case Nil
  then show ?case by simp
next
  case (Cons e es)
  from Cons.prems(1) obtain f where f: "filename_of e = Some f"
    by (auto simp: is_record_def)
  from Cons show ?case
    by (auto simp: f filename_of_member)
qed

lemma removeEntries_records:
  "\<forall>e \<in> set index. is_record e \<Longrightarrow>
     removeEntries index filenames =
       Inr (filter (\<lambda>e. \<forall>f. filename_of e = Some f \<longrightarrow> f \<notin> set filenames) index)"
proof (induction index)
  case Nil
  then show ?case by simp
next
  case (Cons e es)
  from Cons.prems(1) obtain f where f: "filename_of e = Some f"
    by (auto simp: is_record_def)
  from Cons show ?case
    by (auto simp: f filename_of_member)
qed

text \<open>
  C9. On a collection of records and a record \<open>r\<close>: when the collection already holds a
  record with the filename of \<open>r\<close>, \<open>addEntry\<close> returns the collection as it is (so adding
  twice is adding once); otherwise it appends \<open>r\<close> at the end. \<open>removeEntries\<close> keeps, in
  order, exactly the records whose filename is not in the removal list. Adding
  \<open>{filename: "a", type: "world"}\<close> twice to the empty collection and removing \<open>"a"\<close>
  gives the empty collection.
\<close>

theorem index_add_remove:
  "(\<forall>e \<in> set index. is_record e) \<and> is_record r \<longrightarrow>
     ((\<exists>e \<in> set index. filename_of e = filename_of r) \<longrightarrow> addEntry index r = Inr index) \<and>
     (\<not> (\<exists>e \<in> set index. filename_of e = filename_of r) \<longrightarrow> addEntry index r = Inr (index @ [r])) \<and>
     (\<forall>added. addEntry index r = Inr added \<longrightarrow> addEntry added r = Inr added) \<and>
     (\<exists>kept. removeEntries index filenames = Inr kept \<and> subseq kept index \<and>
        (\<forall>e. e \<in> set kept \<longleftrightarrow>
           e \<in> set index \<and> (\<forall>f. filename_of e = Some f \<longrightarrow> f \<notin> set filenames))) \<and>
     (\<forall>once twice. addEntry [] (index_entry ''a'' ''world'') = Inr once \<and>
        addEntry once (index_entry ''a'' ''world'') = Inr twice
        \<longrightarrow> removeEntries twice [''a''] = Inr [])"
proof (intro impI)
  assume h: "(\<forall>e \<in> set index. is_record e) \<and> is_record r"
  then obtain g where g: "filename_of r = Some g"
    by (auto simp: is_record_def)
  from h have s: "some_same_filename index r = Inr (\<exists>e \<in> set index. filename_of e = Some g)"
    by (simp add: some_same_filename_records g)
  have a1: "(\<exists>e \<in> set index. filename_of e = filename_of r) \<longrightarrow> addEntry index r = Inr index"
    by (simp add: addEntry_def s g)
  have a2: "\<not> (\<exists>e \<in> set index. filename_of e = filename_of r) \<longrightarrow>
      addEntry index r = Inr (index @ [r])"
    by (simp add: addEntry_def s g)
  have a3: "\<forall>added. addEntry index r = Inr added \<longrightarrow> addEntry added r = Inr added"
  proof (intro allI impI)
    fix added assume added: "addEntry index r = Inr added"
    then have rec: "\<forall>e \<in> set added. is_record e" and mem: "\<exists>e \<in> set added. filename_of e = Some g"
      using h g by (auto simp: addEntry_def s split: if_splits)
    from rec have "some_same_filename added r = Inr (\<exists>e \<in> set added. filename_of e = Some g)"
      by (simp add: some_same_filename_records g)
    with mem show "addEntry added r = Inr added"
      by (simp add: addEntry_def)
  qed
  have a4: "\<exists>kept. removeEntries index filenames = Inr kept \<and> subseq kept index \<and>
        (\<forall>e. e \<in> set kept \<longleftrightarrow>
           e \<in> set index \<and> (\<forall>f. filename_of e = Some f \<longrightarrow> f \<notin> set filenames))"
    using h by (auto simp: removeEntries_records)
  have a5: "\<forall>once twice. addEntry [] (index_entry ''a'' ''world'') = Inr once \<and>
        addEntry once (index_entry ''a'' ''world'') = Inr twice
        \<longrightarrow> removeEntries twice [''a''] = Inr []"
    by (auto simp: addEntry_def index_entry_def)
  from a1 a2 a3 a4 a5 show "((\<exists>e \<in> set index. filename_of e = filename_of r) \<longrightarrow> addEntry index r = Inr index) \<and>
     (\<not> (\<exists>e \<in> set index. filename_of e = filename_of r) \<longrightarrow> addEntry index r = Inr (index @ [r])) \<and>
     (\<forall>added. addEntry index r = Inr added \<longrightarrow> addEntry added r = Inr added) \<and>
     (\<exists>kept. removeEntries index filenames = Inr kept \<and> subseq kept index \<and>
        (\<forall>e. e \<in> set kept \<longleftrightarrow>
           e \<in> set index \<and> (\<forall>f. filename_of e = Some f \<longrightarrow> f \<notin> set filenames))) \<and>
     (\<forall>once twice. addEntry [] (index_entry ''a'' ''world'') = Inr once \<and>
        addEntry once (index_entry ''a'' ''world'') = Inr twice
        \<longrightarrow> removeEntries twice [''a''] = Inr [])"
    by blast
qed

theorem index_add_remove_witness:
  "addEntry [index_entry ''a'' ''world''] (index_entry ''a'' ''world'') =
     Inr [index_entry ''a'' ''world''] \<and>
   addEntry [index_entry ''a'' ''world''] (index_entry ''b'' ''character'') =
     Inr [index_entry ''a'' ''world'', index_entry ''b'' ''character''] \<and>
   removeEntries [index_entry ''a'' ''world''] [''a''] = Inr []"
proof -
  let ?a = "index_entry ''a'' ''world''" and ?b = "index_entry ''b'' ''character''"
  have ra: "filename_of ?a = Some ''a''" and rb: "filename_of ?b = Some ''b''"
    by (simp_all add: index_entry_def)
  have recs: "(\<forall>e \<in> set [?a]. is_record e) \<and> is_record ?a"
    "(\<forall>e \<in> set [?a]. is_record e) \<and> is_record ?b"
    by (simp_all add: is_record_def ra rb)
  note same = index_add_remove [where index = "[?a]" and r = ?a and filenames = "[]",
      THEN mp, OF recs(1)]
  note other = index_add_remove [where index = "[?a]" and r = ?b and filenames = "[]",
      THEN mp, OF recs(2)]
  have 1: "addEntry [?a] ?a = Inr [?a]"
    using same [THEN conjunct1] by simp
  have 2: "addEntry [?a] ?b = Inr [?a, ?b]"
    using other [THEN conjunct2, THEN conjunct1] by (simp add: ra rb)
  have 0: "addEntry [] ?a = Inr [?a]"
    by (simp add: addEntry_def)
  have 3: "removeEntries [?a] [''a''] = Inr []"
    using same [THEN conjunct2, THEN conjunct2, THEN conjunct2, THEN conjunct2, rule_format,
        where once = "[?a]" and twice = "[?a]"] 0 1
    by blast
  from 1 2 3 show ?thesis by blast
qed

section \<open>Link resolver (\<open>createSymlinkForUser\<close>)\<close>

definition lstatExists :: "world \<Rightarrow> path \<Rightarrow> bool" where
  "lstatExists w p = (case lstatSync w p of Inl e \<Rightarrow> False | Inr n \<Rightarrow> True)"

text \<open>
  The end of \<open>createSymlinkForUser\<close>, reached when nothing is at the target and also
  after the existing entry was unlinked: in a dry run a line is printed, otherwise the
  directory is made and the link created; the tag returned is \<open>created\<close> either way.
\<close>

definition create_link :: "path \<Rightarrow> path \<Rightarrow> bool \<Rightarrow> world \<Rightarrow> (js_error + string) \<times> world" where
  "create_link sourceAbsolute targetPath dryRun w =
     (if dryRun
      then (Inr ''created'',
            info (''[DRY RUN] Would create symlink: '' @ path_str targetPath @ '' -> ''
                    @ path_str sourceAbsolute) w)
      else
        (case mkdirSync_recursive (dirname targetPath) w of
           (Inl e, w1) \<Rightarrow> (Inl e, w1)
         | (Inr u, w1) \<Rightarrow>
             (case symlinkSync sourceAbsolute targetPath w1 of
                (Inl e, w2) \<Rightarrow> (Inl e, w2)
              | (Inr u', w2) \<Rightarrow> (Inr ''created'', w2))))"

definition createSymlinkForUser ::
  "path \<Rightarrow> path \<Rightarrow> string \<Rightarrow> string \<Rightarrow> bool \<Rightarrow> world \<Rightarrow> (js_error + string) \<times> world" where
  "createSymlinkForUser sourceAbsolute targetPath handle overridePolicy dryRun w =
     (if existsSync w targetPath \<or> lstatExists w targetPath
      then
        (case lstatSync w targetPath of
           Inl e \<Rightarrow> (Inl e, w)
         | Inr st \<Rightarrow>
             if isSymbolicLink st
             then
               (case readlinkSync w targetPath of
                  Inl e \<Rightarrow> (Inl e, w)
                | Inr currentTarget \<Rightarrow>
                    if resolve currentTarget = resolve sourceAbsolute then (Inr ''already-linked'', w)
                    else if overridePolicy = ''skip'' then (Inr ''skipped'', w)
                    else if dryRun
                    then (Inr ''replaced'',
                          info (''[DRY RUN] Would replace symlink for '' @ handle @ '': ''
                                  @ path_str currentTarget @ '' -> '' @ path_str sourceAbsolute) w)
                    else
                      (case unlinkSync targetPath w of
                         (Inl e, w1) \<Rightarrow> (Inl e, w1)
                       | (Inr u, w1) \<Rightarrow> create_link sourceAbsolute targetPath dryRun w1))
             else
               if overridePolicy = ''skip'' then (Inr ''skipped'', w)
               else if dryRun
               then (Inr ''replaced'',
                     info (''[DRY RUN] Would backup and replace file for '' @ handle) w)
               else
                 (case unlinkSync targetPath w of
                    (Inl e, w1) \<Rightarrow> (Inl e, w1)
                  | (Inr u, w1) \<Rightarrow> create_link sourceAbsolute targetPath dryRun w1))
      else create_link sourceAbsolute targetPath dryRun w)"

text \<open>A world given by the list of its nodes, for the examples.\<close>

definition world_of :: "(path \<times> node) list \<Rightarrow> world" where
  "world_of ns = \<lparr>nodes = map_of ns, syscalls = [], console = []\<rparr>"

text \<open>
  The user \<open>alice\<close> holds a regular file \<open>worlds/Lore.json\<close>; the shared lorebook is
  \<open>/scaffold/worlds/Lore.json\<close>.
\<close>

definition alice_has_copy :: world where
  "alice_has_copy = world_of
     [([''data''], Dir), ([''data'', ''alice''], Dir), ([''data'', ''alice'', ''worlds''], Dir),
      ([''data'', ''alice'', ''worlds'', ''Lore.json''], File ''{}''),
      ([''scaffold''], Dir), ([''scaffold'', ''worlds''], Dir),
      ([''scaffold'', ''worlds'', ''Lore.json''], File ''{ }'')]"

lemma create_link_tag: "fst (create_link s t d w) \<noteq> Inr ''replaced''"
  by (auto simp: create_link_def split: prod.splits sum.splits)

text \<open>
  C2. With a regular file (or a link to another source) at the target and the policy
  \<open>all\<close>, the real action unlinks the entry and creates the link, but the tag it
  returns is \<open>created\<close>: outside a dry run \<open>createSymlinkForUser\<close> never returns
  \<open>replaced\<close>. The dry run of the same state and policy returns \<open>replaced\<close>. Shown for
  every state, and evaluated on the world where \<open>alice\<close> holds a regular file.
\<close>

theorem createSymlinkForUser_replace_tag:
  "fst (createSymlinkForUser sourceAbsolute targetPath handle overridePolicy False w)
     \<noteq> Inr ''replaced'' \<and>
   fst (createSymlinkForUser [''scaffold'', ''worlds'', ''Lore.json'']
          [''data'', ''alice'', ''worlds'', ''Lore.json''] ''alice'' ''all'' False alice_has_copy)
     = Inr ''created'' \<and>
   syscalls (snd (createSymlinkForUser [''scaffold'', ''worlds'', ''Lore.json'']
          [''data'', ''alice'', ''worlds'', ''Lore.json''] ''alice'' ''all'' False alice_has_copy))
     = [Unlink [''data'', ''alice'', ''worlds'', ''Lore.json''] (File ''{}''),
        MakeSymlink [''scaffold'', ''worlds'', ''Lore.json'']
          [''data'', ''alice'', ''worlds'', ''Lore.json'']] \<and>
   fst (createSymlinkForUser [''scaffold'', ''worlds'', ''Lore.json'']
          [''data'', ''alice'', ''worlds'', ''Lore.json''] ''alice'' ''all'' True alice_has_copy)
     = Inr ''replaced''"
proof (intro conjI)
  show "fst (createSymlinkForUser sourceAbsolute targetPath handle overridePolicy False w)
     \<noteq> Inr ''replaced''"
    by (auto simp: createSymlinkForUser_def create_link_tag split: prod.splits sum.splits)
next
  have "fst (createSymlinkForUser [''scaffold'', ''worlds'', ''Lore.json'']
          [''data'', ''alice'', ''worlds'', ''Lore.json''] ''alice'' ''all'' False alice_has_copy)
     = Inr ''created'' \<and>
   syscalls (snd (createSymlinkForUser [''scaffold'', ''worlds'', ''Lore.json'']
          [''data'', ''alice'', ''worlds'', ''Lore.json''] ''alice'' ''all'' False alice_has_copy))
     = [Unlink [''data'', ''alice'', ''worlds'', ''Lore.json''] (File ''{}''),
        MakeSymlink [''scaffold'', ''worlds'', ''Lore.json'']
          [''data'', ''alice'', ''worlds'', ''Lore.json'']]"
    by (simp add: createSymlinkForUser_def create_link_def alice_has_copy_def world_of_def
        existsSync_def lstatExists_def lstatSync_def stat_def lstat_def readlinkSync_def
        unlinkSync_def symlinkSync_def mkdirSync_recursive_def is_dir_def dirname_def emit_def
        resolve_def eval_nat_numeral)
  then show "fst (createSymlinkForUser [''scaffold'', ''worlds'', ''Lore.json'']
          [''data'', ''alice'', ''worlds'', ''Lore.json''] ''alice'' ''all'' False alice_has_copy)
     = Inr ''created''"
    and "syscalls (snd (createSymlinkForUser [''scaffold'', ''worlds'', ''Lore.json'']
          [''data'', ''alice'', ''worlds'', ''Lore.json''] ''alice'' ''all'' False alice_has_copy))
     = [Unlink [''data'', ''alice'', ''worlds'', ''Lore.json''] (File ''{}''),
        MakeSymlink [''scaffold'', ''worlds'', ''Lore.json'']
          [''data'', ''alice'', ''worlds'', ''Lore.json'']]"
    by simp_all
next
  show "fst (createSymlinkForUser [''scaffold'', ''worlds'', ''Lore.json'']
          [''data'', ''alice'', ''worlds'', ''Lore.json''] ''alice'' ''all'' True alice_has_copy)
     = Inr ''replaced''"
    by (simp add: createSymlinkForUser_def alice_has_copy_def world_of_def
        existsSync_def lstatExists_def lstatSync_def stat_def lstat_def eval_nat_numeral)
qed

section \<open>Value-type inference (\<open>parseValue\<close>)\<close>

text \<open>
  The input is what the operator typed: a JavaScript string, that is, a list of UTF-16
  code units. A literal of the source is the list of the codes of its ASCII characters.
\<close>

type_synonym code_unit = "16 word"

type_synonym ustring = "code_unit list"

definition ascii :: "string \<Rightarrow> ustring" where
  "ascii s = map of_char s"

text \<open>
  \<open>String.prototype.trim\<close> removes white space and line terminators at both ends: tab,
  line feed, vertical tab, form feed, carriage return, space, no-break space, the other
  space separators of Unicode (U+1680, U+2000 to U+200A, U+202F, U+205F, U+3000), the
  line and paragraph separators (U+2028, U+2029) and the byte order mark (U+FEFF).
\<close>

definition is_white_space :: "code_unit \<Rightarrow> bool" where
  "is_white_space c \<longleftrightarrow>
     c \<in> {0x0009, 0x000A, 0x000B, 0x000C, 0x000D, 0x0020, 0x00A0, 0x1680, 0x2028, 0x2029,
          0x202F, 0x205F, 0x3000, 0xFEFF} \<or> (0x2000 \<le> c \<and> c \<le> 0x200A)"

definition trim :: "ustring \<Rightarrow> ustring" where
  "trim s = rev (dropWhile is_white_space (rev (dropWhile is_white_space s)))"

text \<open>\<open>\d\<close> matches the ten ASCII digits.\<close>

definition is_decimal_digit :: "code_unit \<Rightarrow> bool" where
  "is_decimal_digit c \<longleftrightarrow> 0x30 \<le> c \<and> c \<le> 0x39"

text \<open>
  The test of the regular expression \<open>/^-?\d+(\.\d+)?$/\<close>: an optional minus, the longest
  run of digits (not empty), and then either the end or a dot and digits (not empty) up
  to the end.
\<close>

definition number_pattern :: "ustring \<Rightarrow> bool" where
  "number_pattern s =
     (let u = (case s of c # r \<Rightarrow> if c = 0x2D then r else s | [] \<Rightarrow> s);
          ip = takeWhile is_decimal_digit u;
          rest = dropWhile is_decimal_digit u
      in ip \<noteq> [] \<and>
         (case rest of
            [] \<Rightarrow> True
          | c # f \<Rightarrow> c = 0x2E \<and> f \<noteq> [] \<and> list_all is_decimal_digit f))"

subsection \<open>\<open>Number\<close> of a decimal literal\<close>

text \<open>
  A JavaScript number is a double: a rational of the form \<open>m * 2^p\<close> with \<open>m\<close> below
  \<open>2^53\<close>, or an infinity, or the negative zero.
\<close>

datatype number = Finite rat | PosInfinity | NegInfinity | NegZero

definition digit_of :: "code_unit \<Rightarrow> nat" where
  "digit_of c = unat c - 0x30"

definition digits_value :: "ustring \<Rightarrow> nat" where
  "digits_value ds = foldl (\<lambda>a c. 10 * a + digit_of c) 0 ds"

text \<open>The number of binary digits of a natural number.\<close>

fun bit_length :: "nat \<Rightarrow> nat" where
  "bit_length n = (if n = 0 then 0 else Suc (bit_length (n div 2)))"

declare bit_length.simps [simp del]

text \<open>
  The double nearest to \<open>n / d\<close> (for \<open>d > 0\<close>), ties to the even significand.
  \<open>e\<close> is the exponent of \<open>n / d\<close> (\<open>2^e \<le> n / d < 2^(e + 1)\<close>); the doubles around
  \<open>n / d\<close> are the multiples of \<open>2^p\<close> with \<open>p = e - 52\<close>, and \<open>p = - 1074\<close> in the
  subnormal range. \<open>None\<close> stands for a result beyond the largest double.
\<close>

definition pow2 :: "int \<Rightarrow> rat" where
  "pow2 p = (if 0 \<le> p then 2 ^ nat p else 1 / 2 ^ nat (- p))"

definition exponent_of :: "nat \<Rightarrow> nat \<Rightarrow> int" where
  "exponent_of n d =
     (let e0 = int (bit_length n) - int (bit_length d)
      in if (if 0 \<le> e0 then d * 2 ^ nat e0 \<le> n else d \<le> n * 2 ^ nat (- e0))
         then e0 else e0 - 1)"

definition round_half_even :: "nat \<Rightarrow> nat \<Rightarrow> nat" where
  "round_half_even num den =
     (let q = num div den; r = num mod den
      in if 2 * r < den then q
         else if den < 2 * r then q + 1
         else if even q then q else q + 1)"

definition nearest_double :: "nat \<Rightarrow> nat \<Rightarrow> rat option" where
  "nearest_double n d =
     (if n = 0 then Some 0
      else
        (let e = exponent_of n d;
             p = max (e - 52) (- 1074);
             m = (if 0 \<le> p then round_half_even n (d * 2 ^ nat p)
                  else round_half_even (n * 2 ^ nat (- p)) d);
             x = of_nat m * pow2 p
         in if x < 2 ^ 1024 then Some x else None))"

text \<open>
  \<open>Number(s)\<close> on a string that passes the test: the double nearest to the value of the
  decimal literal, as V8 computes it; \<open>-0\<close> when a literal with a minus rounds to zero.
\<close>

definition Number :: "ustring \<Rightarrow> number" where
  "Number s =
     (let neg = (case s of c # r \<Rightarrow> c = 0x2D | [] \<Rightarrow> False);
          u = (if neg then tl s else s);
          ip = takeWhile is_decimal_digit u;
          fp = drop 1 (dropWhile is_decimal_digit u)
      in case nearest_double (digits_value (ip @ fp)) (10 ^ length fp) of
           None \<Rightarrow> if neg then NegInfinity else PosInfinity
         | Some x \<Rightarrow> if neg then (if x = 0 then NegZero else Finite (- x)) else Finite x)"

subsection \<open>The rules\<close>

definition startsWith :: "ustring \<Rightarrow> ustring \<Rightarrow> bool" where
  "startsWith s p \<longleftrightarrow> prefix p s"

definition endsWith :: "ustring \<Rightarrow> ustring \<Rightarrow> bool" where
  "endsWith s p \<longleftrightarrow> suffix p s"

text \<open>
  What \<open>parseValue\<close> returns: a boolean, \<open>null\<close>, a number, the value \<open>JSON.parse\<close>
  returned, or a string. \<open>JSON.parse\<close> is the runtime's: a parameter.
\<close>

datatype parsed =
    PBool bool
  | PNull
  | PNumber number
  | PJson json
  | PString ustring

definition parseValue :: "(ustring \<Rightarrow> js_error + json) \<Rightarrow> ustring \<Rightarrow> parsed" where
  "parseValue JSON_parse input =
     (let trimmed = trim input in
      if trimmed = ascii ''true'' then PBool True
      else if trimmed = ascii ''false'' then PBool False
      else if trimmed = ascii ''null'' then PNull
      else if number_pattern trimmed then PNumber (Number trimmed)
      else if (startsWith trimmed (ascii ''{'') \<and> endsWith trimmed (ascii ''}'')) \<or>
              (startsWith trimmed (ascii ''['') \<and> endsWith trimmed (ascii '']''))
      then (case JSON_parse trimmed of Inr value \<Rightarrow> PJson value | Inl e \<Rightarrow> PString trimmed)
      else PString trimmed)"

text \<open>The words of the claim.\<close>

definition all_digits :: "ustring \<Rightarrow> bool" where
  "all_digits ds \<longleftrightarrow> ds \<noteq> [] \<and> (\<forall>c \<in> set ds. is_decimal_digit c)"

definition decimal_literal :: "ustring \<Rightarrow> bool" where
  "decimal_literal s \<longleftrightarrow>
     (\<exists>sign ip fp. s = sign @ ip @ fp \<and> (sign = [] \<or> sign = ascii ''-'') \<and> all_digits ip \<and>
        (fp = [] \<or> (\<exists>f. fp = ascii ''.'' @ f \<and> all_digits f)))"

definition bracketed :: "ustring \<Rightarrow> bool" where
  "bracketed s \<longleftrightarrow>
     (\<exists>m. s = ascii ''{'' @ m @ ascii ''}'') \<or> (\<exists>m. s = ascii ''['' @ m @ ascii '']'')"

text \<open>A parser for the examples: it knows the text \<open>[1,2]\<close> and rejects every other.\<close>

definition sample_parse :: "ustring \<Rightarrow> js_error + json" where
  "sample_parse raw =
     (if raw = ascii ''[1,2]'' then Inr (JArr [JNum 1, JNum 2])
      else Inl (JsError ''SyntaxError: Unexpected token''))"

subsection \<open>The pattern and the brackets\<close>

lemma ascii_simps [simp]:
  "ascii ''-'' = [0x2D]" "ascii ''.'' = [0x2E]" "ascii ''{'' = [0x7B]" "ascii ''}'' = [0x7D]"
  "ascii ''['' = [0x5B]" "ascii '']'' = [0x5D]"
  "ascii ''true'' = [0x74, 0x72, 0x75, 0x65]" "ascii ''false'' = [0x66, 0x61, 0x6C, 0x73, 0x65]"
  "ascii ''null'' = [0x6E, 0x75, 0x6C, 0x6C]"
  by (simp_all add: ascii_def)

lemma not_digit_minus [simp]: "\<not> is_decimal_digit 0x2D" "\<not> is_decimal_digit 0x2E"
  by (simp_all add: is_decimal_digit_def)

lemma takeWhile_digits_dot:
  assumes "\<forall>c \<in> set ip. is_decimal_digit c"
  shows "takeWhile is_decimal_digit (ip @ 0x2E # f) = ip"
    and "dropWhile is_decimal_digit (ip @ 0x2E # f) = 0x2E # f"
    and "takeWhile is_decimal_digit ip = ip"
    and "dropWhile is_decimal_digit ip = []"
  using assms by (induction ip) simp_all

lemma unsigned_pattern_iff:
  "(takeWhile is_decimal_digit u \<noteq> [] \<and>
      (case dropWhile is_decimal_digit u of [] \<Rightarrow> True
       | c # f \<Rightarrow> c = 0x2E \<and> f \<noteq> [] \<and> list_all is_decimal_digit f)) \<longleftrightarrow>
   (\<exists>ip fp. u = ip @ fp \<and> all_digits ip \<and>
      (fp = [] \<or> (\<exists>f. fp = ascii ''.'' @ f \<and> all_digits f)))"
  (is "?L \<longleftrightarrow> ?R")
proof
  assume ?L
  then have "u = takeWhile is_decimal_digit u @ dropWhile is_decimal_digit u \<and>
     all_digits (takeWhile is_decimal_digit u) \<and>
     (dropWhile is_decimal_digit u = [] \<or>
      (\<exists>f. dropWhile is_decimal_digit u = ascii ''.'' @ f \<and> all_digits f))"
    by (auto simp: all_digits_def list_all_iff split: list.splits dest: set_takeWhileD)
  then show ?R by blast
next
  assume ?R
  then obtain ip fp where u: "u = ip @ fp" and ip: "all_digits ip"
    and fp: "fp = [] \<or> (\<exists>f. fp = ascii ''.'' @ f \<and> all_digits f)"
    by blast
  from fp show ?L
  proof
    assume "fp = []"
    with u ip show ?L by (simp add: all_digits_def takeWhile_digits_dot)
  next
    assume "\<exists>f. fp = ascii ''.'' @ f \<and> all_digits f"
    then obtain f where "fp = 0x2E # f" "all_digits f" by auto
    with u ip show ?L
      by (simp add: all_digits_def takeWhile_digits_dot list_all_iff)
  qed
qed

lemma decimal_literal_minus:
  "decimal_literal (0x2D # r) \<longleftrightarrow>
     (\<exists>ip fp. r = ip @ fp \<and> all_digits ip \<and>
        (fp = [] \<or> (\<exists>f. fp = ascii ''.'' @ f \<and> all_digits f)))"
  (is "?L \<longleftrightarrow> ?R")
proof
  assume ?L
  then obtain sign ip fp where d: "0x2D # r = sign @ ip @ fp" "sign = [] \<or> sign = ascii ''-''"
    "all_digits ip" "fp = [] \<or> (\<exists>f. fp = ascii ''.'' @ f \<and> all_digits f)"
    unfolding decimal_literal_def by blast
  from d(1,3) have "sign \<noteq> []"
    by (cases ip) (auto simp: all_digits_def)
  with d(2) have "sign = [0x2D]" by simp
  with d have "r = ip @ fp" by simp
  with d show ?R by blast
next
  assume ?R
  then obtain ip fp where "r = ip @ fp" "all_digits ip"
    "fp = [] \<or> (\<exists>f. fp = ascii ''.'' @ f \<and> all_digits f)" by blast
  moreover from this have "0x2D # r = ascii ''-'' @ ip @ fp" by simp
  ultimately show ?L unfolding decimal_literal_def by blast
qed

lemma decimal_literal_no_minus:
  assumes "\<And>r. s \<noteq> 0x2D # r"
  shows "decimal_literal s \<longleftrightarrow>
     (\<exists>ip fp. s = ip @ fp \<and> all_digits ip \<and>
        (fp = [] \<or> (\<exists>f. fp = ascii ''.'' @ f \<and> all_digits f)))"
  (is "?L \<longleftrightarrow> ?R")
proof
  assume ?L
  then obtain sign ip fp where d: "s = sign @ ip @ fp" "sign = [] \<or> sign = ascii ''-''"
    "all_digits ip" "fp = [] \<or> (\<exists>f. fp = ascii ''.'' @ f \<and> all_digits f)"
    unfolding decimal_literal_def by blast
  from d(1) assms [of "ip @ fp"] have "sign \<noteq> ascii ''-''" by auto
  with d(2) have "sign = []" by simp
  with d show ?R by auto
next
  assume ?R
  then obtain ip fp where "s = [] @ ip @ fp" "all_digits ip"
    "fp = [] \<or> (\<exists>f. fp = ascii ''.'' @ f \<and> all_digits f)" by auto
  then show ?L unfolding decimal_literal_def by blast
qed

lemma number_pattern_iff: "number_pattern s \<longleftrightarrow> decimal_literal s"
proof (cases "\<exists>r. s = 0x2D # r")
  case True
  then obtain r where s: "s = 0x2D # r" by blast
  show ?thesis
    unfolding s decimal_literal_minus unsigned_pattern_iff [symmetric]
    by (simp add: number_pattern_def Let_def)
next
  case False
  then have n: "\<And>r. s \<noteq> 0x2D # r" by blast
  then have "(case s of c # r \<Rightarrow> if c = 0x2D then r else s | [] \<Rightarrow> s) = s"
    by (cases s) auto
  then show ?thesis
    unfolding decimal_literal_no_minus [OF n] unsigned_pattern_iff [symmetric]
    by (simp add: number_pattern_def Let_def)
qed

lemma bracketed_iff:
  "(startsWith s (ascii ''{'') \<and> endsWith s (ascii ''}'')) \<or>
   (startsWith s (ascii ''['') \<and> endsWith s (ascii '']'')) \<longleftrightarrow> bracketed s"
proof -
  have "prefix [a] s \<and> suffix [b] s \<longleftrightarrow> (\<exists>m. s = [a] @ m @ [b])" if "a \<noteq> b" for a b :: code_unit
  proof
    assume "prefix [a] s \<and> suffix [b] s"
    then obtain t u where t: "s = [a] @ t" and u: "s = u @ [b]"
      unfolding prefix_def suffix_def by blast
    with that have "t \<noteq> []" by auto
    then obtain m x where "t = m @ [x]" by (metis rev_exhaust)
    with t u show "\<exists>m. s = [a] @ m @ [b]" by auto
  next
    assume "\<exists>m. s = [a] @ m @ [b]"
    then show "prefix [a] s \<and> suffix [b] s"
      by (auto simp: suffix_def)
  qed
  from this [of "0x7B" "0x7D"] this [of "0x5B" "0x5D"]
  show ?thesis
    by (simp add: startsWith_def endsWith_def bracketed_def)
qed

lemma literals_not_numbers:
  "\<not> number_pattern (ascii ''true'')" "\<not> number_pattern (ascii ''false'')"
  "\<not> number_pattern (ascii ''null'')"
  by (simp_all add: number_pattern_def is_decimal_digit_def)

lemma bracketed_not_number: "bracketed s \<Longrightarrow> \<not> number_pattern s"
  by (auto simp: bracketed_def number_pattern_def is_decimal_digit_def)

lemma bracketed_not_literal:
  "bracketed s \<Longrightarrow> s \<noteq> ascii ''true'' \<and> s \<noteq> ascii ''false'' \<and> s \<noteq> ascii ''null''"
  by (auto simp: bracketed_def)

lemma trim_examples:
  "trim (ascii ''true'') = ascii ''true''" "trim (ascii ''42'') = ascii ''42''"
  "trim (ascii ''[1,2]'') = ascii ''[1,2]''" "trim (ascii ''[1,2'') = ascii ''[1,2''"
  by (simp_all add: trim_def is_white_space_def ascii_def)

lemmas double_defs =
  nearest_double_def exponent_of_def bit_length.simps round_half_even_def pow2_def Let_def

lemma Number_42: "Number (ascii ''42'') = Finite 42"
  by (simp add: Number_def ascii_def is_decimal_digit_def digits_value_def digit_of_def
      double_defs)

lemma bit_length_bounds:
  "0 < n \<Longrightarrow> 2 ^ (bit_length n - 1) \<le> n \<and> n < 2 ^ bit_length n"
proof (induction n rule: bit_length.induct)
  case (1 n)
  show ?case
  proof (cases "n div 2 = 0")
    case True
    with 1 have "n = 1" by (auto simp: div_eq_0_iff)
    then show ?thesis by (simp add: bit_length.simps)
  next
    case False
    with 1 have ih: "2 ^ (bit_length (n div 2) - 1) \<le> n div 2" "n div 2 < 2 ^ bit_length (n div 2)"
      by simp_all
    have pos: "0 < bit_length (n div 2)"
      using False by (simp add: bit_length.simps [of "n div 2"])
    have bl: "bit_length n = Suc (bit_length (n div 2))"
      using 1 by (simp add: bit_length.simps [of n])
    from pos obtain k where k: "bit_length (n div 2) = Suc k" by (cases "bit_length (n div 2)") auto
    from ih have "2 * 2 ^ k \<le> n" "n < 2 * 2 ^ Suc k"
      unfolding k by auto
    then show ?thesis
      unfolding bl k by simp
  qed
qed

text \<open>A natural number up to \<open>2^53\<close> is a double.\<close>

lemma nearest_double_integer:
  assumes "n \<le> 2 ^ 53"
  shows "nearest_double n 1 = Some (of_nat n)"
proof (cases "n = 0")
  case True
  then show ?thesis by (simp add: nearest_double_def)
next
  case False
  then have pos: "0 < n" by simp
  from bit_length_bounds [OF pos]
  have lo: "2 ^ (bit_length n - 1) \<le> n" and hi: "n < 2 ^ bit_length n" by simp_all
  have bl_pos: "0 < bit_length n"
    using pos by (simp add: bit_length.simps [of n])
  have one: "bit_length (Suc 0) = Suc 0"
    by (simp add: bit_length.simps)
  have e: "exponent_of n 1 = int (bit_length n) - 1"
    using lo bl_pos by (simp add: exponent_of_def one Let_def nat_diff_distrib)
  from lo assms have "(2::nat) ^ (bit_length n - 1) \<le> 2 ^ 53" by simp
  then have le: "bit_length n - 1 \<le> 53"
    by (rule power_le_imp_le_exp [rotated]) simp
  define p where "p = int (bit_length n) - 1 - 52"
  have pmax: "max (exponent_of n 1 - 52) (- 1074) = p"
    unfolding e p_def using bl_pos by simp
  have small: "of_nat n < (2::rat) ^ 1024"
  proof -
    have "(of_nat n :: rat) \<le> 2 ^ 53"
      using assms by (metis of_nat_le_iff of_nat_numeral of_nat_power)
    also have "\<dots> < 2 ^ 1024" by simp
    finally show ?thesis .
  qed
  show ?thesis
  proof (cases "p \<le> 0")
    case True
    have "round_half_even (n * 2 ^ nat (- p)) 1 = n * 2 ^ nat (- p)"
      by (simp add: round_half_even_def)
    moreover have "round_half_even n (1 * 2 ^ nat p) = n" if "p = 0"
      using that by (simp add: round_half_even_def)
    moreover have "of_nat (n * 2 ^ nat (- p)) * pow2 p = (of_nat n :: rat)"
      using True by (simp add: pow2_def)
    ultimately show ?thesis
      unfolding nearest_double_def Let_def pmax
      using \<open>n \<noteq> 0\<close> True small
      by (cases "p = 0") (simp_all add: pow2_def)
  next
    case False
    with le have p1: "p = 1" and bl: "bit_length n = 54"
      unfolding p_def by simp_all
    from lo bl assms have n: "n = 2 ^ 53" by simp
    show ?thesis
      unfolding nearest_double_def Let_def pmax p1
      by (simp add: n round_half_even_def pow2_def)
  qed
qed

subsection \<open>The order of the rules\<close>

text \<open>
  C4. With \<open>t\<close> the trimmed input: \<open>true\<close> and \<open>false\<close> give the booleans; \<open>null\<close>
  gives null; a decimal literal (digits, an optional fraction, an optional leading
  minus) gives its number, which in JavaScript is the double nearest to it; a text in
  matching brackets or braces that parses gives the parsed value; and everything else,
  malformed bracketed text included, gives \<open>t\<close> itself as a string. The rules cannot
  overlap: a literal is not a number, a number is not bracketed. In particular
  \<open>parseValue("true") = true\<close>, \<open>parseValue("42") = 42\<close>, \<open>parseValue("[1,2]") =
  [1,2]\<close> (where \<open>JSON.parse\<close> reads that text so) and \<open>parseValue("[1,2") = "[1,2"\<close>.
\<close>

theorem parseValue_precedence:
  "(trim input = ascii ''true'' \<longrightarrow> parseValue JSON_parse input = PBool True) \<and>
   (trim input = ascii ''false'' \<longrightarrow> parseValue JSON_parse input = PBool False) \<and>
   (trim input = ascii ''null'' \<longrightarrow> parseValue JSON_parse input = PNull) \<and>
   (decimal_literal (trim input) \<longrightarrow>
      parseValue JSON_parse input = PNumber (Number (trim input))) \<and>
   (\<forall>value. bracketed (trim input) \<and> JSON_parse (trim input) = Inr value \<longrightarrow>
      parseValue JSON_parse input = PJson value) \<and>
   (trim input \<noteq> ascii ''true'' \<and> trim input \<noteq> ascii ''false'' \<and>
    trim input \<noteq> ascii ''null'' \<and> \<not> decimal_literal (trim input) \<and>
    (\<not> bracketed (trim input) \<or> (\<exists>e. JSON_parse (trim input) = Inl e)) \<longrightarrow>
      parseValue JSON_parse input = PString (trim input)) \<and>
   parseValue JSON_parse (ascii ''true'') = PBool True \<and>
   parseValue JSON_parse (ascii ''42'') = PNumber (Finite 42) \<and>
   (JSON_parse (ascii ''[1,2]'') = Inr (JArr [JNum 1, JNum 2]) \<longrightarrow>
      parseValue JSON_parse (ascii ''[1,2]'') = PJson (JArr [JNum 1, JNum 2])) \<and>
   parseValue JSON_parse (ascii ''[1,2'') = PString (ascii ''[1,2'')"
proof (intro conjI allI impI)
  show "parseValue JSON_parse input = PBool True" if "trim input = ascii ''true''"
    using that by (simp add: parseValue_def)
  show "parseValue JSON_parse input = PBool False" if "trim input = ascii ''false''"
    using that by (simp add: parseValue_def)
  show "parseValue JSON_parse input = PNull" if "trim input = ascii ''null''"
    using that by (simp add: parseValue_def)
  show "parseValue JSON_parse input = PNumber (Number (trim input))"
    if "decimal_literal (trim input)"
  proof -
    from that have n: "number_pattern (trim input)" by (simp add: number_pattern_iff)
    with literals_not_numbers have "trim input \<noteq> ascii ''true''" "trim input \<noteq> ascii ''false''"
      "trim input \<noteq> ascii ''null''" by auto
    with n show ?thesis by (simp add: parseValue_def Let_def del: ascii_simps)
  qed
  show "parseValue JSON_parse input = PJson value"
    if "bracketed (trim input) \<and> JSON_parse (trim input) = Inr value" for "value"
    using that bracketed_not_number [of "trim input"] bracketed_not_literal [of "trim input"]
      bracketed_iff [of "trim input"]
    by (simp add: parseValue_def Let_def del: ascii_simps)
  show "parseValue JSON_parse input = PString (trim input)"
    if "trim input \<noteq> ascii ''true'' \<and> trim input \<noteq> ascii ''false'' \<and>
    trim input \<noteq> ascii ''null'' \<and> \<not> decimal_literal (trim input) \<and>
    (\<not> bracketed (trim input) \<or> (\<exists>e. JSON_parse (trim input) = Inl e))"
    using that bracketed_iff [of "trim input"]
    by (auto simp: parseValue_def Let_def number_pattern_iff simp del: ascii_simps)
  show "parseValue JSON_parse (ascii ''true'') = PBool True"
    by (simp add: parseValue_def trim_examples del: ascii_simps)
  show "parseValue JSON_parse (ascii ''42'') = PNumber (Finite 42)"
  proof -
    have "number_pattern (ascii ''42'')"
      by (simp add: number_pattern_def is_decimal_digit_def ascii_def)
    moreover have "ascii ''42'' \<noteq> ascii ''true''" "ascii ''42'' \<noteq> ascii ''false''"
      "ascii ''42'' \<noteq> ascii ''null''"
      by (simp_all add: ascii_def)
    ultimately show ?thesis
      by (simp add: parseValue_def trim_examples Number_42 del: ascii_simps)
  qed
  show "parseValue JSON_parse (ascii ''[1,2]'') = PJson (JArr [JNum 1, JNum 2])"
    if "JSON_parse (ascii ''[1,2]'') = Inr (JArr [JNum 1, JNum 2])"
    using that
    by (simp add: parseValue_def trim_examples del: ascii_simps)
       (simp add: number_pattern_def is_decimal_digit_def
        startsWith_def endsWith_def suffix_def ascii_def)
  show "parseValue JSON_parse (ascii ''[1,2'') = PString (ascii ''[1,2'')"
    by (simp add: parseValue_def trim_examples del: ascii_simps)
       (simp add: number_pattern_def is_decimal_digit_def
        startsWith_def endsWith_def suffix_def ascii_def)
qed

text \<open>
  Examples: the white space trimmed is not only ASCII (a no-break space before and a byte
  order mark after \<open>-3.50\<close>), and a literal that is no double is rounded.
\<close>

definition padded_number :: ustring where
  "padded_number = [0x00A0] @ ascii '' -3.50 '' @ [0xFEFF]"

lemma trim_padded:
  "trim padded_number = ascii ''-3.50''"
  "trim (ascii ''  {oops'') = ascii ''{oops''"
  "trim (ascii ''9007199254740993'') = ascii ''9007199254740993''"
  by (simp_all add: padded_number_def trim_def is_white_space_def ascii_def)

lemma decimal_literal_example:
  "decimal_literal (ascii ''-3.50'')" "decimal_literal (ascii ''9007199254740993'')"
  unfolding number_pattern_iff [symmetric]
  by (simp_all add: number_pattern_def is_decimal_digit_def ascii_def)

lemma Number_example:
  "Number (ascii ''-3.50'') = Finite (- 7 / 2)"
  "Number (ascii ''9007199254740993'') = Finite 9007199254740992"
  by (simp_all add: Number_def ascii_def is_decimal_digit_def digits_value_def digit_of_def
      double_defs)

theorem parseValue_precedence_witness:
  "parseValue sample_parse padded_number = PNumber (Finite (- 7 / 2)) \<and>
   parseValue sample_parse (ascii ''9007199254740993'') = PNumber (Finite 9007199254740992) \<and>
   parseValue sample_parse (ascii ''[1,2]'') = PJson (JArr [JNum 1, JNum 2]) \<and>
   parseValue sample_parse (ascii ''  {oops'') = PString (ascii ''{oops'')"
proof (intro conjI)
  note pv = parseValue_precedence [where JSON_parse = sample_parse]
  from pv [where input = padded_number] decimal_literal_example
  show "parseValue sample_parse padded_number = PNumber (Finite (- 7 / 2))"
    by (simp add: trim_padded Number_example del: ascii_simps)
  from pv [where input = "ascii ''9007199254740993''"] decimal_literal_example
  show "parseValue sample_parse (ascii ''9007199254740993'') = PNumber (Finite 9007199254740992)"
    by (simp add: trim_padded Number_example del: ascii_simps)
  have "sample_parse (ascii ''[1,2]'') = Inr (JArr [JNum 1, JNum 2])"
    by (simp add: sample_parse_def)
  with pv [where input = "[]"]
  show "parseValue sample_parse (ascii ''[1,2]'') = PJson (JArr [JNum 1, JNum 2])"
    by blast
  have "\<not> bracketed (ascii ''{oops'')" "\<not> decimal_literal (ascii ''{oops'')"
    "ascii ''{oops'' \<noteq> ascii ''true''" "ascii ''{oops'' \<noteq> ascii ''false''"
    "ascii ''{oops'' \<noteq> ascii ''null''"
    unfolding number_pattern_iff [symmetric]
    by (auto simp: bracketed_def number_pattern_def is_decimal_digit_def ascii_def)
  with pv [where input = "ascii ''  {oops''"]
  show "parseValue sample_parse (ascii ''  {oops'') = PString (ascii ''{oops'')"
    by (simp add: trim_padded del: ascii_simps)
qed

section \<open>Paths of \<open>lodash.get\<close> and \<open>lodash.set\<close>\<close>

text \<open>
  \<open>lodash.get\<close> and \<open>lodash.set\<close> are dependencies; they are modelled from their
  published sources (\<open>castPath\<close>, \<open>isKey\<close>, \<open>stringToPath\<close>, \<open>isIndex\<close>, \<open>baseGet\<close>,
  \<open>baseSet\<close>, \<open>assignValue\<close>), on the part of their behaviour that does not depend on
  the built-in prototypes. The model answers \<open>None\<close> where it does not follow them:
  \<^item> a path with a bracket, or with an empty segment between dots (the versions of
    \<open>stringToPath\<close> differ there);
  \<^item> a key that is not an own property and is the name of a property of a built-in
    prototype (the read gives a built-in function, and the write that follows lands on
    an object shared by the whole runtime);
  \<^item> \<open>length\<close> of an array assigned a string or an object (the conversion to a number
    is not modelled);
  \<^item> an array index added to a plain object (it is enumerated before the other keys).
\<close>

text \<open>
  The names of the properties of \<open>Object.prototype\<close>, \<open>Array.prototype\<close>,
  \<open>String.prototype\<close>, \<open>Number.prototype\<close> and \<open>Boolean.prototype\<close> in ECMAScript 2024
  (with its annex B), but \<open>length\<close>, which arrays and strings have as an own property.
\<close>

definition prototype_names :: "string list" where
  "prototype_names =
     [''constructor'', ''__defineGetter__'', ''__defineSetter__'', ''hasOwnProperty'',
      ''__lookupGetter__'', ''__lookupSetter__'', ''isPrototypeOf'', ''propertyIsEnumerable'',
      ''toString'', ''valueOf'', ''__proto__'', ''toLocaleString'',
      ''at'', ''concat'', ''copyWithin'', ''entries'', ''every'', ''fill'', ''filter'', ''find'',
      ''findIndex'', ''findLast'', ''findLastIndex'', ''flat'', ''flatMap'', ''forEach'',
      ''includes'', ''indexOf'', ''join'', ''keys'', ''lastIndexOf'', ''map'', ''pop'', ''push'',
      ''reduce'', ''reduceRight'', ''reverse'', ''shift'', ''slice'', ''some'', ''sort'',
      ''splice'', ''toReversed'', ''toSorted'', ''toSpliced'', ''unshift'', ''values'', ''with'',
      ''anchor'', ''big'', ''blink'', ''bold'', ''charAt'', ''charCodeAt'', ''codePointAt'',
      ''endsWith'', ''fixed'', ''fontcolor'', ''fontsize'', ''isWellFormed'', ''italics'',
      ''link'', ''localeCompare'', ''match'', ''matchAll'', ''normalize'', ''padEnd'',
      ''padStart'', ''repeat'', ''replace'', ''replaceAll'', ''search'', ''small'', ''split'',
      ''startsWith'', ''strike'', ''sub'', ''substr'', ''substring'', ''sup'',
      ''toLocaleLowerCase'', ''toLocaleUpperCase'', ''toLowerCase'', ''toUpperCase'',
      ''toWellFormed'', ''trim'', ''trimEnd'', ''trimLeft'', ''trimRight'', ''trimStart'',
      ''toExponential'', ''toFixed'', ''toPrecision'']"

definition inherited :: "string \<Rightarrow> bool" where
  "inherited k \<longleftrightarrow> k \<in> set prototype_names"

text \<open>A key is a list of 8-bit characters.\<close>

definition is_digit :: "char \<Rightarrow> bool" where
  "is_digit c \<longleftrightarrow> c \<in> set ''0123456789''"

definition digit_value :: "char \<Rightarrow> nat" where
  "digit_value c = of_char c - of_char CHR ''0''"

definition decimal_value :: "string \<Rightarrow> nat" where
  "decimal_value ds = foldl (\<lambda>a c. 10 * a + digit_value c) 0 ds"

text \<open>
  The number written by a key that matches \<open>/^(?:0|[1-9]\d*)$/\<close>. Such a key is an
  array index when the number is below \<open>2^32 - 1\<close>, and \<open>isIndex\<close> accepts it when it is
  below \<open>Number.MAX_SAFE_INTEGER\<close>.
\<close>

definition index_of_key :: "string \<Rightarrow> nat option" where
  "index_of_key k =
     (if k = ''0'' then Some 0
      else if k \<noteq> [] \<and> list_all is_digit k \<and> hd k \<noteq> CHR ''0'' then Some (decimal_value k)
      else None)"

definition array_index :: "string \<Rightarrow> nat option" where
  "array_index k =
     (case index_of_key k of
        Some i \<Rightarrow> if i < 4294967295 then Some i else None
      | None \<Rightarrow> None)"

definition isIndex :: "string \<Rightarrow> bool" where
  "isIndex k \<longleftrightarrow> (case index_of_key k of Some i \<Rightarrow> i < 9007199254740991 | None \<Rightarrow> False)"

text \<open>\<open>string.split('.')\<close>.\<close>

fun split_from :: "string \<Rightarrow> string \<Rightarrow> string list" where
  "split_from seen [] = [rev seen]"
| "split_from seen (c # cs) =
     (if c = CHR ''.'' then rev seen # split_from [] cs else split_from (c # seen) cs)"

definition split_dots :: "string \<Rightarrow> string list" where
  "split_dots s = split_from [] s"

text \<open>
  \<open>castPath\<close>, given whether the object has an own property named by the whole path:
  the path is one key when it has no dot or names a property; otherwise it is split at
  the dots, which is what \<open>stringToPath\<close> computes when no segment is empty.
\<close>

definition path_keys :: "string \<Rightarrow> bool \<Rightarrow> string list option" where
  "path_keys path own =
     (if CHR ''['' \<in> set path \<or> CHR '']'' \<in> set path then None
      else if CHR ''.'' \<notin> set path \<or> own then Some [path]
      else if [] \<in> set (split_dots path) then None
      else Some (split_dots path))"

section \<open>Document mutator, in the store (\<open>applyMutations\<close> and aliasing)\<close>

text \<open>
  Whether \<open>applyMutations\<close> alters the object it is given is a question about objects,
  not values: here every object and array is a cell of a store, a value is a primitive
  or the address of a cell, and \<open>lodash.set\<close> updates cells in place. An object cell
  holds its own properties in the order of their creation; an array cell holds its
  elements (\<open>undefined\<close> in a hole) and its named properties.
\<close>

type_synonym addr = nat

datatype ref_val = VUndefined | VNull | VBool bool | VNum rat | VStr string | VRef addr

datatype cell =
    ObjCell "(string \<times> ref_val) list"
  | ArrCell "ref_val list" "(string \<times> ref_val) list"

type_synonym store = "cell list"

text \<open>\<open>hasOwnProperty.call(object, key)\<close>.\<close>

fun has_key :: "cell \<Rightarrow> string \<Rightarrow> bool" where
  "has_key (ObjCell ps) k = (map_of ps k \<noteq> None)"
| "has_key (ArrCell xs ps) k =
     (case array_index k of
        Some i \<Rightarrow> i < length xs
      | None \<Rightarrow> k = ''length'' \<or> map_of ps k \<noteq> None)"

text \<open>
  The read \<open>object[key]\<close>: the own property; without one, \<open>undefined\<close> unless the key
  names a property of a built-in prototype (\<open>None\<close>).
\<close>

fun read_cell :: "cell \<Rightarrow> string \<Rightarrow> ref_val option" where
  "read_cell (ObjCell ps) k =
     (case map_of ps k of
        Some v \<Rightarrow> Some v
      | None \<Rightarrow> if inherited k then None else Some VUndefined)"
| "read_cell (ArrCell xs ps) k =
     (case array_index k of
        Some i \<Rightarrow> Some (if i < length xs then xs ! i else VUndefined)
      | None \<Rightarrow>
          if k = ''length'' then Some (VNum (of_nat (length xs)))
          else (case map_of ps k of
                  Some v \<Rightarrow> Some v
                | None \<Rightarrow> if inherited k then None else Some VUndefined))"

text \<open>
  The assignment \<open>array.length = value\<close>: a number that is an integer from 0 to
  \<open>2^32 - 1\<close> cuts the array or extends it with holes, any other number is a
  \<open>RangeError\<close>; \<open>null\<close>, a boolean and \<open>undefined\<close> are converted to 0, to 0 or 1, and
  to \<open>NaN\<close>.
\<close>

definition resize :: "ref_val list \<Rightarrow> nat \<Rightarrow> ref_val list" where
  "resize xs n = take n xs @ replicate (n - length xs) VUndefined"

definition set_length ::
  "ref_val list \<Rightarrow> (string \<times> ref_val) list \<Rightarrow> ref_val \<Rightarrow> (js_error + cell) option" where
  "set_length xs ps v =
     (case v of
        VNum x \<Rightarrow>
          if 0 \<le> x \<and> x = of_int \<lfloor>x\<rfloor> \<and> x < 4294967296
          then Some (Inr (ArrCell (resize xs (nat \<lfloor>x\<rfloor>)) ps))
          else Some (Inl (JsError ''RangeError: Invalid array length''))
      | VNull \<Rightarrow> Some (Inr (ArrCell [] ps))
      | VBool b \<Rightarrow> Some (Inr (ArrCell (resize xs (if b then 1 else 0)) ps))
      | VUndefined \<Rightarrow> Some (Inl (JsError ''RangeError: Invalid array length''))
      | VStr s \<Rightarrow> None
      | VRef a \<Rightarrow> None)"

text \<open>
  The assignment \<open>object[key] = value\<close>. An index beyond the end of an array leaves
  holes before it.
\<close>

fun assign_cell :: "cell \<Rightarrow> string \<Rightarrow> ref_val \<Rightarrow> (js_error + cell) option" where
  "assign_cell (ObjCell ps) k v =
     (if map_of ps k \<noteq> None then Some (Inr (ObjCell (AList.update k v ps)))
      else if inherited k \<or> array_index k \<noteq> None then None
      else Some (Inr (ObjCell (ps @ [(k, v)]))))"
| "assign_cell (ArrCell xs ps) k v =
     (case array_index k of
        Some i \<Rightarrow>
          Some (Inr (ArrCell (if i < length xs then xs[i := v]
                              else xs @ replicate (i - length xs) VUndefined @ [v]) ps))
      | None \<Rightarrow>
          if k = ''length'' then set_length xs ps v
          else if map_of ps k \<noteq> None then Some (Inr (ArrCell xs (AList.update k v ps)))
          else if inherited k then None
          else Some (Inr (ArrCell xs (ps @ [(k, v)]))))"

subsection \<open>\<open>JSON.stringify\<close> and \<open>JSON.parse\<close>\<close>

text \<open>
  \<open>JSON.stringify\<close> walks the cells from a value. The outer \<open>None\<close> is the
  \<open>TypeError\<close> of a circular structure (the walk is longer than the store has cells);
  \<open>Some None\<close> is \<open>undefined\<close>, which an object omits and an array writes as \<open>null\<close>.
  The named properties of an array are not written.
\<close>

definition object_json :: "(string \<times> jsval option) list \<Rightarrow> jsval option" where
  "object_json ps =
     (if list_ex (\<lambda>p. snd p = None) ps then None
      else Some (Some (JObj (concat (map (\<lambda>(k, r). case r of Some (Some j) \<Rightarrow> [(k, j)] | _ \<Rightarrow> []) ps)))))"

definition array_json :: "jsval option list \<Rightarrow> jsval option" where
  "array_json rs =
     (if list_ex (\<lambda>r. r = None) rs then None
      else Some (Some (JArr (map (\<lambda>r. case r of Some (Some j) \<Rightarrow> j | _ \<Rightarrow> JNull) rs))))"

fun to_json :: "nat \<Rightarrow> store \<Rightarrow> ref_val \<Rightarrow> jsval option" where
  "to_json 0 h v = None"
| "to_json (Suc n) h VUndefined = Some None"
| "to_json (Suc n) h VNull = Some (Some JNull)"
| "to_json (Suc n) h (VBool b) = Some (Some (JBool b))"
| "to_json (Suc n) h (VNum x) = Some (Some (JNum x))"
| "to_json (Suc n) h (VStr s) = Some (Some (JStr s))"
| "to_json (Suc n) h (VRef a) =
     (if a < length h
      then (case h ! a of
              ObjCell ps \<Rightarrow> object_json (map (\<lambda>(k, v). (k, to_json n h v)) ps)
            | ArrCell xs ps \<Rightarrow> array_json (map (to_json n h) xs))
      else None)"

definition JSON_stringify_store :: "store \<Rightarrow> ref_val \<Rightarrow> jsval option" where
  "JSON_stringify_store h v = to_json (Suc (length h)) h v"

text \<open>\<open>JSON.parse\<close> builds new cells at the end of the store, the parts before the whole.\<close>

fun alloc :: "json \<Rightarrow> store \<Rightarrow> ref_val \<times> store"
  and alloc_list :: "json list \<Rightarrow> store \<Rightarrow> ref_val list \<times> store"
  and alloc_props :: "(string \<times> json) list \<Rightarrow> store \<Rightarrow> (string \<times> ref_val) list \<times> store" where
  "alloc JNull h = (VNull, h)"
| "alloc (JBool b) h = (VBool b, h)"
| "alloc (JNum x) h = (VNum x, h)"
| "alloc (JStr s) h = (VStr s, h)"
| "alloc (JArr xs) h =
     (case alloc_list xs h of (vs, h1) \<Rightarrow> (VRef (length h1), h1 @ [ArrCell vs []]))"
| "alloc (JObj ps) h =
     (case alloc_props ps h of (qs, h1) \<Rightarrow> (VRef (length h1), h1 @ [ObjCell qs]))"
| "alloc_list [] h = ([], h)"
| "alloc_list (x # xs) h =
     (case alloc x h of (v, h1) \<Rightarrow>
        (case alloc_list xs h1 of (vs, h2) \<Rightarrow> (v # vs, h2)))"
| "alloc_props [] h = ([], h)"
| "alloc_props (p # ps) h =
     (case alloc (snd p) h of (v, h1) \<Rightarrow>
        (case alloc_props ps h1 of (qs, h2) \<Rightarrow> ((fst p, v) # qs, h2)))"

text \<open>\<open>JSON.parse(JSON.stringify(original))\<close>.\<close>

definition deep_clone_store :: "store \<Rightarrow> ref_val \<Rightarrow> js_error + ref_val \<times> store" where
  "deep_clone_store h original =
     (case JSON_stringify_store h original of
        None \<Rightarrow> Inl (JsError ''TypeError: Converting circular structure to JSON'')
      | Some None \<Rightarrow> Inl (JsError ''SyntaxError: undefined is not valid JSON'')
      | Some (Some t) \<Rightarrow> Inr (alloc t h))"

subsection \<open>\<open>lodash.set\<close> in place\<close>

definition castPath_store :: "string \<Rightarrow> cell \<Rightarrow> string list option" where
  "castPath_store path c = path_keys path (has_key c path)"

text \<open>
  \<open>assignValue\<close>: nothing is assigned when the object has the key with that very value.
\<close>

definition assignValue_store ::
  "store \<Rightarrow> addr \<Rightarrow> string \<Rightarrow> ref_val \<Rightarrow> (js_error + store) option" where
  "assignValue_store h a k v =
     (case read_cell (h ! a) k of
        None \<Rightarrow> None
      | Some objValue \<Rightarrow>
          if has_key (h ! a) k \<and> objValue = v then Some (Inr h)
          else (case assign_cell (h ! a) k v of
                  None \<Rightarrow> None
                | Some (Inl e) \<Rightarrow> Some (Inl e)
                | Some (Inr c) \<Rightarrow> Some (Inr (h[a := c]))))"

fun is_ref :: "ref_val \<Rightarrow> bool" where
  "is_ref (VRef a) = True"
| "is_ref v = False"

text \<open>
  The loop of \<open>baseSet\<close>: \<open>nested\<close> is the object reached so far. For a key that is not
  the last, the value under it is kept when it is an object, and a new empty array or
  object is made otherwise; the key is assigned, and the loop goes on in
  \<open>nested[key]\<close>. It ends when \<open>nested\<close> is \<open>null\<close> or \<open>undefined\<close>.
\<close>

fun baseSet_store ::
  "store \<Rightarrow> ref_val \<Rightarrow> string list \<Rightarrow> ref_val \<Rightarrow> (js_error + store) option" where
  "baseSet_store h nested [] v = Some (Inr h)"
| "baseSet_store h (VRef a) (key # rest) v =
     (if a < length h
      then
        (if rest = [] then assignValue_store h a key v
         else
           (case read_cell (h ! a) key of
              None \<Rightarrow> None
            | Some objValue \<Rightarrow>
                (let h1 = (if is_ref objValue then h
                           else h @ [if isIndex (hd rest) then ArrCell [] [] else ObjCell []]);
                     newValue = (if is_ref objValue then objValue else VRef (length h))
                 in case assignValue_store h1 a key newValue of
                      None \<Rightarrow> None
                    | Some (Inl e) \<Rightarrow> Some (Inl e)
                    | Some (Inr h2) \<Rightarrow>
                        (case read_cell (h2 ! a) key of
                           None \<Rightarrow> None
                         | Some nested' \<Rightarrow> baseSet_store h2 nested' rest v))))
      else None)"
| "baseSet_store h VUndefined (key # rest) v = Some (Inr h)"
| "baseSet_store h VNull (key # rest) v = Some (Inr h)"
| "baseSet_store h nested (key # rest) v = None"

definition lodashSet_store ::
  "store \<Rightarrow> ref_val \<Rightarrow> string \<Rightarrow> ref_val \<Rightarrow> (js_error + store) option" where
  "lodashSet_store h object path v =
     (case object of
        VRef a \<Rightarrow>
          if a < length h
          then (case castPath_store path (h ! a) of
                  None \<Rightarrow> None
                | Some keys \<Rightarrow> baseSet_store h object keys v)
          else None
      | _ \<Rightarrow> Some (Inr h))"

text \<open>The \<open>for (const { path, value } of mutations)\<close> loop.\<close>

fun set_each ::
  "store \<Rightarrow> ref_val \<Rightarrow> (string \<times> ref_val) list \<Rightarrow> (js_error + store) option" where
  "set_each h result [] = Some (Inr h)"
| "set_each h result ((path, v) # rest) =
     (case lodashSet_store h result path v of
        None \<Rightarrow> None
      | Some (Inl e) \<Rightarrow> Some (Inl e)
      | Some (Inr h') \<Rightarrow> set_each h' result rest)"

definition applyMutations_store ::
  "store \<Rightarrow> ref_val \<Rightarrow> (string \<times> ref_val) list \<Rightarrow> (js_error + ref_val \<times> store) option" where
  "applyMutations_store h original mutations =
     (case deep_clone_store h original of
        Inl e \<Rightarrow> Some (Inl e)
      | Inr (result, h1) \<Rightarrow>
          (case set_each h1 result mutations of
             None \<Rightarrow> None
           | Some (Inl e) \<Rightarrow> Some (Inl e)
           | Some (Inr h2) \<Rightarrow> Some (Inr (result, h2))))"

text \<open>
  A store for the examples: the document \<open>{a: {x: 1}}\<close> at address 1, its inner
  object at address 0, and an object \<open>{z: true}\<close> of its own at address 2.
\<close>

definition sample_store :: store where
  "sample_store =
     [ObjCell [(''x'', VNum 1)], ObjCell [(''a'', VRef 0)], ObjCell [(''z'', VBool True)]]"

lemma split_b_x: "split_dots ''b.x'' = [''b'', ''x'']" "split_dots ''b.z'' = [''b'', ''z'']"
  by (simp_all add: split_dots_def)

text \<open>
  C5. The claim is that \<open>applyMutations(D, M)\<close> leaves \<open>D\<close> unaltered for every
  document \<open>D\<close> and every list of mutations \<open>M\<close>, as the comment of the function says
  ("Returns a new object - does not modify the original"). The function clones \<open>D\<close> but
  stores the values of \<open>M\<close> as they are, where \<open>syncSections\<close> clones the value it
  stores. With \<open>D = {a: {x: 1}}\<close> and \<open>M = [b := D.a, b.x := 2]\<close>: before the call
  \<open>D\<close> reads \<open>{a: {x: 1}}\<close>; the call returns the new object at address 4 and leaves
  the store below, in which the inner object of \<open>D\<close> (address 0) holds \<open>x = 2\<close>;
  after the call \<open>D\<close> reads \<open>{a: {x: 2}}\<close>. With a value that \<open>D\<close> does not hold
  (\<open>M = [b := {z: true}, b.z := 2]\<close>) \<open>D\<close> reads as before.
\<close>

theorem applyMutations_leaves_original:
  "JSON_stringify_store sample_store (VRef 1) =
     Some (Some (JObj [(''a'', JObj [(''x'', JNum 1)])])) \<and>
   applyMutations_store sample_store (VRef 1) [(''b'', VRef 0), (''b.x'', VNum 2)] =
     Some (Inr (VRef 4,
       [ObjCell [(''x'', VNum 2)], ObjCell [(''a'', VRef 0)], ObjCell [(''z'', VBool True)],
        ObjCell [(''x'', VNum 1)], ObjCell [(''a'', VRef 3), (''b'', VRef 0)]])) \<and>
   JSON_stringify_store
       [ObjCell [(''x'', VNum 2)], ObjCell [(''a'', VRef 0)], ObjCell [(''z'', VBool True)],
        ObjCell [(''x'', VNum 1)], ObjCell [(''a'', VRef 3), (''b'', VRef 0)]] (VRef 1) =
     Some (Some (JObj [(''a'', JObj [(''x'', JNum 2)])])) \<and>
   applyMutations_store sample_store (VRef 1) [(''b'', VRef 2), (''b.z'', VNum 2)] =
     Some (Inr (VRef 4,
       [ObjCell [(''x'', VNum 1)], ObjCell [(''a'', VRef 0)], ObjCell [(''z'', VNum 2)],
        ObjCell [(''x'', VNum 1)], ObjCell [(''a'', VRef 3), (''b'', VRef 2)]])) \<and>
   JSON_stringify_store
       [ObjCell [(''x'', VNum 1)], ObjCell [(''a'', VRef 0)], ObjCell [(''z'', VNum 2)],
        ObjCell [(''x'', VNum 1)], ObjCell [(''a'', VRef 3), (''b'', VRef 2)]] (VRef 1) =
     Some (Some (JObj [(''a'', JObj [(''x'', JNum 1)])]))"
  by (simp add: applyMutations_store_def deep_clone_store_def JSON_stringify_store_def
      object_json_def eval_nat_numeral sample_store_def
      lodashSet_store_def castPath_store_def path_keys_def split_b_x assignValue_store_def
      inherited_def prototype_names_def array_index_def index_of_key_def is_digit_def Let_def)

section \<open>Document mutator, on values (\<open>applyMutations\<close>)\<close>

text \<open>
  Where no object is shared, a document in memory is a value: a \<open>json\<close> value stands for
  the object \<open>JSON.parse\<close> builds from it, and an update returns the updated value. The
  model answers \<open>None\<close>, besides the cases listed with the paths, where the updated
  object is not such a value: a named property set on an array, and an index set beyond
  the end of an array (which leaves holes).
\<close>

text \<open>\<open>path in Object(object)\<close>, for a path with a dot (no inherited property has one).\<close>

fun own_property :: "json \<Rightarrow> string \<Rightarrow> bool" where
  "own_property (JObj ps) k = (map_of ps k \<noteq> None)"
| "own_property (JArr xs) k =
     (case array_index k of Some i \<Rightarrow> i < length xs | None \<Rightarrow> k = ''length'')"
| "own_property (JStr s) k =
     (case array_index k of Some i \<Rightarrow> i < length s | None \<Rightarrow> k = ''length'')"
| "own_property v k = False"

text \<open>
  The read \<open>object[key]\<close> on a value that is not \<open>null\<close> (the loops stop on \<open>null\<close> and
  never read it): the own property; without one, \<open>undefined\<close> unless the key names a
  property of a built-in prototype (\<open>None\<close>).
\<close>

fun property :: "json \<Rightarrow> string \<Rightarrow> jsval option" where
  "property (JObj ps) k =
     (case map_of ps k of
        Some v \<Rightarrow> Some (Some v)
      | None \<Rightarrow> if inherited k then None else Some None)"
| "property (JArr xs) k =
     (case array_index k of
        Some i \<Rightarrow> Some (if i < length xs then Some (xs ! i) else None)
      | None \<Rightarrow>
          if k = ''length'' then Some (Some (JNum (of_nat (length xs))))
          else if inherited k then None else Some None)"
| "property (JStr s) k =
     (case array_index k of
        Some i \<Rightarrow> Some (if i < length s then Some (JStr [s ! i]) else None)
      | None \<Rightarrow>
          if k = ''length'' then Some (Some (JNum (of_nat (length s))))
          else if inherited k then None else Some None)"
| "property JNull k = None"
| "property v k = (if inherited k then None else Some None)"


definition castPath :: "string \<Rightarrow> json \<Rightarrow> string list option" where
  "castPath path object = path_keys path (own_property object path)"

text \<open>\<open>baseGet\<close>: the loop stops on \<open>null\<close> and \<open>undefined\<close> and then gives \<open>undefined\<close>.\<close>

fun baseGet :: "jsval \<Rightarrow> string list \<Rightarrow> jsval option" where
  "baseGet object [] = Some object"
| "baseGet None (k # ks) = Some None"
| "baseGet (Some JNull) (k # ks) = Some None"
| "baseGet (Some v) (k # ks) =
     (case property v k of None \<Rightarrow> None | Some r \<Rightarrow> baseGet r ks)"

definition lodashGet :: "jsval \<Rightarrow> string \<Rightarrow> jsval \<Rightarrow> jsval option" where
  "lodashGet object path defaultValue =
     (case object of
        None \<Rightarrow> Some defaultValue
      | Some JNull \<Rightarrow> Some defaultValue
      | Some v \<Rightarrow>
          (case castPath path v of
             None \<Rightarrow> None
           | Some keys \<Rightarrow>
               (case baseGet (Some v) keys of
                  None \<Rightarrow> None
                | Some result \<Rightarrow> Some (if result = None then defaultValue else result))))"









subsection \<open>The charLore upsert of \<open>addCharLore\<close>\<close>

definition CHARLORE_PATH :: string where
  "CHARLORE_PATH = ''world_info_settings.world_info.charLore''"




text \<open>
  The list the upsert reads and replaces, and the name of a record in it.
\<close>

definition charLore_of :: "json \<Rightarrow> json list" where
  "charLore_of settings =
     (case lodashGet (Some settings) CHARLORE_PATH (Some (JArr [])) of
        Some (Some (JArr xs)) \<Rightarrow> xs | _ \<Rightarrow> [])"



text \<open>
  A document in which the upsert can place the list: an object, with no array standing
  where the path needs an object (a property set on an array is lost when the document
  is written).
\<close>

fun objects_on_path :: "json \<Rightarrow> string list \<Rightarrow> bool" where
  "objects_on_path (JObj ps) (k # k' # ks) =
     (case map_of ps k of
        Some (JArr xs) \<Rightarrow> False
      | Some (JObj qs) \<Rightarrow> objects_on_path (JObj qs) (k' # ks)
      | _ \<Rightarrow> True)"
| "objects_on_path (JObj ps) ks = True"
| "objects_on_path v ks = False"













lemma objects_on_path_empty [simp]: "objects_on_path (JObj []) ks"
  by (cases "(JObj [], ks)" rule: objects_on_path.cases) simp_all




lemma lodashGet_charLore:
  "\<exists>current. lodashGet (Some settings) CHARLORE_PATH (Some (JArr [])) = Some current \<Longrightarrow>
     (case the (lodashGet (Some settings) CHARLORE_PATH (Some (JArr []))) of
        Some (JArr xs) \<Rightarrow> xs | _ \<Rightarrow> []) = charLore_of settings"
  by (auto simp: charLore_of_def split: option.splits json.splits)












section \<open>The per-user operations\<close>

text \<open>The part of the configuration the operations read.\<close>

record config =
  dataRoot :: path
  dryRun :: bool

definition userCharactersDir :: "path \<Rightarrow> string \<Rightarrow> path" where
  "userCharactersDir base handle = join base [handle, ''characters'']"






text \<open>The two values an operation returns: \<open>'success'\<close> and \<open>{ skipped: reason }\<close>.\<close>

definition op_success :: "js_error + jsval" where
  "op_success = Inr (Some (JStr ''success''))"


subsection \<open>Bulk edit of \<open>settings.json\<close>\<close>








subsection \<open>Reset of \<open>content.log\<close> and bulk delete\<close>



subsection \<open>Push of a character card, and lorebook links\<close>

definition immediatePush_operation :: "config \<Rightarrow> path \<Rightarrow> world operation" where
  "immediatePush_operation cfg sourcePath handle w =
     (let targetDir = userCharactersDir (dataRoot cfg) handle;
          targetPath = join targetDir [basename sourcePath]
      in if dryRun cfg
         then (op_success,
               info (''[DRY RUN] Would copy '' @ path_str sourcePath @ '' -> '' @ path_str targetPath) w)
         else
           (case mkdirSync_recursive targetDir w of
              (Inl e, w1) \<Rightarrow> (Inl e, w1)
            | (Inr u, w1) \<Rightarrow>
                (case copyFileSync sourcePath targetPath w1 of
                   (Inl e, w2) \<Rightarrow> (Inl e, w2)
                 | (Inr u', w2) \<Rightarrow> (op_success, w2))))"


subsection \<open>Snapshots before destructive writes\<close>

text \<open>
  A run of system calls is guarded when every call that overwrites a file, or unlinks a
  regular file, comes after a copy of that file to another path; \<open>snapshots\<close> lists the
  paths copied so far.
\<close>

fun is_file :: "node \<Rightarrow> bool" where
  "is_file (File c) = True"
| "is_file n = False"

fun guarded :: "path list \<Rightarrow> fs_event list \<Rightarrow> bool" where
  "guarded snapshots [] = True"
| "guarded snapshots (Mkdir p # es) = guarded snapshots es"
| "guarded snapshots (CopyFile src dst existed # es) =
     ((existed \<longrightarrow> dst \<in> set snapshots) \<and> guarded (src # snapshots) es)"
| "guarded snapshots (WriteFile p existed # es) =
     ((existed \<longrightarrow> p \<in> set snapshots) \<and> guarded snapshots es)"
| "guarded snapshots (Unlink p n # es) =
     ((is_file n \<longrightarrow> p \<in> set snapshots) \<and> guarded snapshots es)"
| "guarded snapshots (MakeSymlink t p # es) = guarded snapshots es"

text \<open>The calls an operation added, and the claim about them.\<close>

definition new_syscalls :: "world \<Rightarrow> world \<Rightarrow> fs_event list" where
  "new_syscalls w w' = drop (length (syscalls w)) (syscalls w')"

definition snapshot_first :: "world operation \<Rightarrow> string \<Rightarrow> world \<Rightarrow> bool" where
  "snapshot_first operation handle w \<longleftrightarrow> guarded [] (new_syscalls w (snd (operation handle w)))"


text \<open>The configuration of the examples: the data root is \<open>/data\<close>, no dry run.\<close>

definition live_config :: config where
  "live_config = \<lparr>dataRoot = [''data''], dryRun = False\<rparr>"

text \<open>
  The user \<open>alice\<close> holds the character card \<open>characters/Hero.png\<close>; the card to
  push is \<open>/cards/Hero.png\<close>.
\<close>

definition alice_has_card :: world where
  "alice_has_card = world_of
     [([''data''], Dir), ([''data'', ''alice''], Dir), ([''data'', ''alice'', ''characters''], Dir),
      ([''data'', ''alice'', ''characters'', ''Hero.png''], File ''old card''),
      ([''cards''], Dir), ([''cards'', ''Hero.png''], File ''new card'')]"

definition only_mkdirs :: "fs_event list \<Rightarrow> bool" where
  "only_mkdirs es \<longleftrightarrow> (\<forall>e \<in> set es. \<exists>p. e = Mkdir p)"

lemma guarded_mkdirs: "only_mkdirs ms \<Longrightarrow> guarded S (ms @ es) = guarded S es"
  by (induction ms) (auto simp: only_mkdirs_def)

lemma only_mkdirs_simps [simp]:
  "only_mkdirs []" "only_mkdirs (Mkdir p # es) = only_mkdirs es"
  by (simp_all add: only_mkdirs_def)











lemma new_syscalls_same [simp]: "new_syscalls w w = []" "new_syscalls w (info msg w) = []"
  by (simp_all add: new_syscalls_def info_def)







lemma guarded_links:
  "only_mkdirs ms \<Longrightarrow> guarded S (ms @ [MakeSymlink s t])"
  "guarded S [MakeSymlink s t]"
  by (simp_all add: guarded_mkdirs)













text \<open>
  The push of a character card copies over the card a user already holds, and no
  snapshot of it is taken.
\<close>

lemma immediatePush_overwrites_unguarded:
  "new_syscalls alice_has_card
     (snd (immediatePush_operation live_config [''cards'', ''Hero.png''] ''alice'' alice_has_card)) =
     [CopyFile [''cards'', ''Hero.png''] [''data'', ''alice'', ''characters'', ''Hero.png''] True] \<and>
   \<not> snapshot_first (immediatePush_operation live_config [''cards'', ''Hero.png''])
       ''alice'' alice_has_card"
  by (simp add: snapshot_first_def immediatePush_operation_def live_config_def alice_has_card_def
      world_of_def new_syscalls_def userCharactersDir_def copyFileSync_def readFileSync_def
      put_file_def stat_def lstat_def mkdirSync_recursive_def is_dir_def dirname_def
      basename_def join_def emit_def eval_nat_numeral Let_def)

end
